theory Spec2Isabelle
  imports Complex_Main "HOL-Library.AList" "HOL-Library.Word"
begin

section \<open>Update server: release selection and the check-update route\<close>

text \<open>
  A release record as the server stores it in the per-scope JSON list. The fields
  \<open>disabled\<close> and \<open>targetBinaryVersion\<close> may be missing from a stored record
  (the command-line publisher writes records without \<open>disabled\<close>), which JavaScript reads
  as \<open>undefined\<close>; they are options here, \<open>None\<close> standing for \<open>undefined\<close>.
\<close>

record release =
  version :: string
  filename :: string
  hash :: string
  size_r :: nat
  description :: string
  mandatory :: bool
  rollout :: int
  targetBinaryVersion :: "string option"
  disabled :: "bool option"

text \<open>
  The three functions of the npm package \<open>semver\<close> that the server calls. The package
  is not part of the repository, so the server functions take it as a parameter.
\<close>

record semver =
  valid :: "string \<Rightarrow> bool"
  gt :: "string \<Rightarrow> string \<Rightarrow> bool"
  satisfies :: "string \<Rightarrow> string \<Rightarrow> bool"

text \<open>JavaScript truthiness of a string-or-undefined and of a boolean-or-undefined.\<close>

fun truthy_str :: "string option \<Rightarrow> bool" where
  "truthy_str None = False"
| "truthy_str (Some s) = (s \<noteq> [])"

fun truthy_bool :: "bool option \<Rightarrow> bool" where
  "truthy_bool None = False"
| "truthy_bool (Some b) = b"

text \<open>
  \<open>findApplicableRelease(releases, currentVersion, appVersion)\<close>: the loop over the
  newest-first list, each \<open>continue\<close> a recursive call on the rest, \<open>return null\<close> the
  value \<open>None\<close>. \<open>appVersion\<close> is \<open>None\<close> when the request body has no such field.
\<close>

fun findApplicableRelease ::
  "semver \<Rightarrow> release list \<Rightarrow> string \<Rightarrow> string option \<Rightarrow> release option" where
  "findApplicableRelease sv [] currentVersion appVersion = None"
| "findApplicableRelease sv (r # rs) currentVersion appVersion =
     (if version r = currentVersion then findApplicableRelease sv rs currentVersion appVersion
      else if valid sv (version r) \<and> valid sv currentVersion
              \<and> \<not> gt sv (version r) currentVersion
        then findApplicableRelease sv rs currentVersion appVersion
      else if (case (targetBinaryVersion r, appVersion) of
                 (Some t, Some a) \<Rightarrow> t \<noteq> [] \<and> t \<noteq> ''*'' \<and> a \<noteq> [] \<and> \<not> satisfies sv a t
               | _ \<Rightarrow> False)
        then findApplicableRelease sv rs currentVersion appVersion
      else Some r)"

text \<open>
  The server's data directory: \<open>releases/<key>-<platform>.json\<close> holds the release list
  of a scope, \<open>packages/<name>\<close> the bytes of a package. A missing file is \<open>None\<close>.
\<close>

record server_data =
  releases_dir :: "string \<rightharpoonup> release list"
  packages_dir :: "string \<rightharpoonup> string"

definition releasesFile :: "string \<Rightarrow> string \<Rightarrow> string" where
  "releasesFile deploymentKey platform = deploymentKey @ ''-'' @ platform @ ''.json''"

definition getReleasesForKey :: "server_data \<Rightarrow> string \<Rightarrow> string \<Rightarrow> release list" where
  "getReleasesForKey d deploymentKey platform =
     (case releases_dir d (releasesFile deploymentKey platform) of
        Some releases \<Rightarrow> releases
      | None \<Rightarrow> [])"

record diff_package =
  dp_filename :: string
  dp_size :: nat
  dp_hash :: string

text \<open>
  \<open>findDiffPackage\<close>: the delta package is looked up by its conventional file name; its
  hash is the SHA-256 of the stored bytes. The digest function belongs to Node's
  \<open>crypto\<close> module and is a parameter.
\<close>

definition findDiffPackage ::
  "(string \<Rightarrow> string) \<Rightarrow> server_data \<Rightarrow> string \<Rightarrow> string \<Rightarrow> string \<Rightarrow> string
     \<Rightarrow> diff_package option" where
  "findDiffPackage sha256 d deploymentKey platform fromVersion toVersion =
     (let diffFilename = deploymentKey @ ''-'' @ platform @ ''-diff-'' @ fromVersion
                           @ ''-to-'' @ toVersion @ ''.zip''
      in case packages_dir d diffFilename of
           Some bytes \<Rightarrow>
             Some \<lparr>dp_filename = diffFilename, dp_size = length bytes, dp_hash = sha256 bytes\<rparr>
         | None \<Rightarrow> None)"

text \<open>
  The request of \<open>POST /api/check-update\<close>: the \<open>x-deployment-key\<close> and \<open>host\<close>
  headers and the fields of the parsed JSON body.
\<close>

record check_request =
  req_deploymentKey :: "string option"
  req_host :: string
  req_currentVersion :: string
  req_platform :: string
  req_appVersion :: "string option"

record update_info =
  resp_version :: string
  resp_downloadUrl :: string
  resp_hash :: string
  resp_size :: nat
  resp_description :: string
  resp_mandatory :: bool
  resp_isDiff :: bool

datatype response =
    MissingDeploymentKey
  | NoUpdate
  | UpdateAvailable update_info

text \<open>
  The handler of \<open>POST /api/check-update\<close>. \<open>rnd\<close> is the value \<open>Math.random()\<close>
  returns (in \<open>[0, 1)\<close>); it is consulted only when the selected release has
  \<open>rollout < 100\<close>. The statistics counter the handler bumps before answering is not part
  of the response and is left out.
\<close>

definition check_update ::
  "semver \<Rightarrow> (string \<Rightarrow> string) \<Rightarrow> server_data \<Rightarrow> real \<Rightarrow> check_request \<Rightarrow> response" where
  "check_update sv sha256 d rnd req =
     (case req_deploymentKey req of
        None \<Rightarrow> MissingDeploymentKey
      | Some key \<Rightarrow>
          if key = [] then MissingDeploymentKey
          else
            let releases = getReleasesForKey d key (req_platform req) in
            if length releases = 0 then NoUpdate
            else
              (case findApplicableRelease sv releases (req_currentVersion req) (req_appVersion req) of
                 None \<Rightarrow> NoUpdate
               | Some latestRelease \<Rightarrow>
                   if rollout latestRelease < 100
                      \<and> \<not> (rnd * 100 < real_of_int (rollout latestRelease))
                     then NoUpdate
                   else if truthy_bool (disabled latestRelease) then NoUpdate
                   else
                     (case findDiffPackage sha256 d key (req_platform req) (req_currentVersion req)
                             (version latestRelease) of
                        Some diffPackage \<Rightarrow>
                          UpdateAvailable
                            \<lparr>resp_version = version latestRelease,
                             resp_downloadUrl =
                               ''http://'' @ req_host req @ ''/api/download/'' @ dp_filename diffPackage,
                             resp_hash = dp_hash diffPackage,
                             resp_size = dp_size diffPackage,
                             resp_description = description latestRelease,
                             resp_mandatory = mandatory latestRelease,
                             resp_isDiff = True\<rparr>
                      | None \<Rightarrow>
                          UpdateAvailable
                            \<lparr>resp_version = version latestRelease,
                             resp_downloadUrl =
                               ''http://'' @ req_host req @ ''/api/download/'' @ filename latestRelease,
                             resp_hash = hash latestRelease,
                             resp_size = size_r latestRelease,
                             resp_description = description latestRelease,
                             resp_mandatory = mandatory latestRelease,
                             resp_isDiff = False\<rparr>)))"

text \<open>
  The handler of \<open>PATCH /api/releases/:deploymentKey/:platform/:version\<close>: the first
  release of the scope with that version gets the fields present in the body. The
  \<open>updatedAt\<close> time stamp it also writes is not a field of the model.
\<close>

record patch_body =
  patch_disabled :: "bool option"
  patch_rollout :: "int option"
  patch_mandatory :: "bool option"

datatype patch_error = ReleaseNotFound | VersionNotFound

definition apply_patch :: "patch_body \<Rightarrow> release \<Rightarrow> release" where
  "apply_patch b r =
     (let r1 = (case patch_disabled b of Some v \<Rightarrow> r\<lparr>disabled := Some v\<rparr> | None \<Rightarrow> r);
          r2 = (case patch_rollout b of Some v \<Rightarrow> r1\<lparr>rollout := v\<rparr> | None \<Rightarrow> r1)
      in (case patch_mandatory b of Some v \<Rightarrow> r2\<lparr>mandatory := v\<rparr> | None \<Rightarrow> r2))"

fun patch_first :: "release list \<Rightarrow> string \<Rightarrow> patch_body \<Rightarrow> release list option" where
  "patch_first [] v b = None"
| "patch_first (r # rs) v b =
     (if version r = v then Some (apply_patch b r # rs)
      else map_option ((#) r) (patch_first rs v b))"

definition patch_release ::
  "server_data \<Rightarrow> string \<Rightarrow> string \<Rightarrow> string \<Rightarrow> patch_body \<Rightarrow> patch_error + server_data" where
  "patch_release d key plat v b =
     (case releases_dir d (releasesFile key plat) of
        None \<Rightarrow> Inl ReleaseNotFound
      | Some releases \<Rightarrow>
          (case patch_first releases v b of
             None \<Rightarrow> Inl VersionNotFound
           | Some releases' \<Rightarrow>
               Inr (d\<lparr>releases_dir := (releases_dir d)(releasesFile key plat \<mapsto> releases')\<rparr>)))"

subsection \<open>An instance of the version library for plain \<open>MAJOR.MINOR.PATCH\<close> versions\<close>

text \<open>
  For concrete scenarios the library parameter is instantiated on the fragment of
  semantic versions made of three dot-separated decimal numbers without leading zeros,
  and on the ranges \<open>*\<close>, \<open>>=X.Y.Z\<close> and \<open>X.Y.Z\<close>. On this fragment it agrees with the
  npm package; the instance is used on this fragment only (a version outside it is
  reported as not valid, a range outside it as not satisfied).
\<close>

definition digit_of :: "char \<Rightarrow> nat option" where
  "digit_of c =
     (let n = (of_char c :: nat) in if 48 \<le> n \<and> n \<le> 57 then Some (n - 48) else None)"

fun digits_val :: "nat \<Rightarrow> string \<Rightarrow> nat option" where
  "digits_val acc [] = Some acc"
| "digits_val acc (c # cs) =
     (case digit_of c of None \<Rightarrow> None | Some k \<Rightarrow> digits_val (10 * acc + k) cs)"

definition parse_num :: "string \<Rightarrow> nat option" where
  "parse_num s =
     (if s = [] then None
      else if hd s = CHR ''0'' \<and> tl s \<noteq> [] then None
      else digits_val 0 s)"

fun split_dots :: "string \<Rightarrow> string list" where
  "split_dots [] = [[]]"
| "split_dots (c # cs) =
     (if c = CHR ''.'' then [] # split_dots cs
      else (case split_dots cs of
              [] \<Rightarrow> [[c]]
            | w # ws \<Rightarrow> (c # w) # ws))"

definition parse_version :: "string \<Rightarrow> (nat \<times> nat \<times> nat) option" where
  "parse_version s =
     (case map parse_num (split_dots s) of
        [Some a, Some b, Some c] \<Rightarrow> Some (a, b, c)
      | _ \<Rightarrow> None)"

fun version_less :: "nat \<times> nat \<times> nat \<Rightarrow> nat \<times> nat \<times> nat \<Rightarrow> bool" where
  "version_less (a, b, c) (a', b', c') =
     (a < a' \<or> (a = a' \<and> (b < b' \<or> (b = b' \<and> c < c'))))"

definition xyz_gt :: "string \<Rightarrow> string \<Rightarrow> bool" where
  "xyz_gt v w =
     (case (parse_version v, parse_version w) of
        (Some x, Some y) \<Rightarrow> version_less y x
      | _ \<Rightarrow> False)"

definition xyz_satisfies :: "string \<Rightarrow> string \<Rightarrow> bool" where
  "xyz_satisfies v rng =
     (case parse_version v of
        None \<Rightarrow> False
      | Some x \<Rightarrow>
          if rng = ''*'' then True
          else if take 2 rng = ''>='' then
            (case parse_version (drop 2 rng) of
               Some y \<Rightarrow> \<not> version_less x y
             | None \<Rightarrow> False)
          else (case parse_version rng of
                  Some y \<Rightarrow> x = y
                | None \<Rightarrow> False))"

definition semver_xyz :: semver where
  "semver_xyz =
     \<lparr>valid = (\<lambda>v. parse_version v \<noteq> None), gt = xyz_gt, satisfies = xyz_satisfies\<rparr>"

subsection \<open>The example scope\<close>

text \<open>
  The scope of the example: newest first, release 2.0.0 (rollout 100, not disabled) and
  release 1.5.0 (rollout 100, no \<open>disabled\<close> field), asked for by a client on 1.0.0 that
  sends no \<open>appVersion\<close>.
\<close>

definition release_2_0_0 :: release where
  "release_2_0_0 =
     \<lparr>version = ''2.0.0'', filename = ''app-android-2.0.0-2.zip'', hash = ''h200'',
      size_r = 2048, description = ''second'', mandatory = False, rollout = 100,
      targetBinaryVersion = Some ''*'', disabled = Some False\<rparr>"

definition release_1_5_0 :: release where
  "release_1_5_0 =
     \<lparr>version = ''1.5.0'', filename = ''app-android-1.5.0-1.zip'', hash = ''h150'',
      size_r = 1024, description = ''first'', mandatory = False, rollout = 100,
      targetBinaryVersion = Some ''*'', disabled = None\<rparr>"

definition example_data :: server_data where
  "example_data =
     \<lparr>releases_dir = [''key-android.json'' \<mapsto> [release_2_0_0, release_1_5_0]],
      packages_dir = Map.empty\<rparr>"

definition example_patched :: server_data where
  "example_patched =
     \<lparr>releases_dir =
        [''key-android.json'' \<mapsto> [release_2_0_0\<lparr>disabled := Some True\<rparr>, release_1_5_0]],
      packages_dir = Map.empty\<rparr>"

definition example_request :: check_request where
  "example_request =
     \<lparr>req_deploymentKey = Some ''key'', req_host = ''localhost:3000'', req_currentVersion = ''1.0.0'',
      req_platform = ''android'', req_appVersion = None\<rparr>"

definition disable_patch :: patch_body where
  "disable_patch = \<lparr>patch_disabled = Some True, patch_rollout = None, patch_mandatory = None\<rparr>"

text \<open>A release targeted at host binaries from 3.0.0 on, and one with rollout 0.\<close>

definition release_targeted :: release where
  "release_targeted = release_2_0_0\<lparr>targetBinaryVersion := Some ''>=3.0.0''\<rparr>"

definition release_rollout_0 :: release where
  "release_rollout_0 = release_2_0_0\<lparr>rollout := 0\<rparr>"

definition example_data_rollout_0 :: server_data where
  "example_data_rollout_0 =
     \<lparr>releases_dir = [''key-android.json'' \<mapsto> [release_rollout_0, release_1_5_0]],
      packages_dir = Map.empty\<rparr>"

text \<open>
  A stand-in for the digest function in concrete scenarios: injective and never the
  empty string, as a hexadecimal SHA-256 digest is never empty.
\<close>

definition tag_digest :: "string \<Rightarrow> string" where
  "tag_digest bytes = CHR ''#'' # bytes"

section \<open>Delta packages\<close>

text \<open>
  A directory tree as it lies on disk: its regular files, in the order the recursive
  scan meets them, each with its path relative to the root (\<open>/\<close> between the
  segments) and its bytes; and every directory below the root, empty ones too, with
  the size \<open>fs.stat\<close> reports for it. The name of a file may contain a backslash.
\<close>

record directory =
  dir_files :: "(string \<times> string) list"
  dir_subdirs :: "(string \<times> nat) list"

text \<open>
  \<open>scanDirectory\<close> collects the hashes in a plain JavaScript object. Reading a key of
  such an object that is not an own property finds the properties inherited from
  \<open>Object.prototype\<close>, and assigning a string to the key \<open>__proto__\<close> stores nothing.
\<close>

type_synonym js_object = "(string \<times> string) list"

datatype jsval = Undefined | Str string | Inherited

definition object_prototype_keys :: "string list" where
  "object_prototype_keys =
     [''constructor'', ''__defineGetter__'', ''__defineSetter__'', ''hasOwnProperty'',
      ''__lookupGetter__'', ''__lookupSetter__'', ''isPrototypeOf'',
      ''propertyIsEnumerable'', ''toString'', ''valueOf'', ''__proto__'',
      ''toLocaleString'']"

definition obj_get :: "js_object \<Rightarrow> string \<Rightarrow> jsval" where
  "obj_get obj k =
     (case map_of obj k of
        Some v \<Rightarrow> Str v
      | None \<Rightarrow> if k \<in> set object_prototype_keys then Inherited else Undefined)"

definition obj_put :: "js_object \<Rightarrow> string \<Rightarrow> string \<Rightarrow> js_object" where
  "obj_put obj k v = (if k = ''__proto__'' then obj else AList.update k v obj)"

fun truthy :: "jsval \<Rightarrow> bool" where
  "truthy Undefined = False"
| "truthy (Str v) = (v \<noteq> [])"
| "truthy Inherited = True"

text \<open>
  The key of a file in the scan is its relative path with every backslash replaced by
  \<open>/\<close> (\<open>.replace(/\\/g, '/')\<close>); the hash is that of the file's bytes.
\<close>

definition replace_backslashes :: "string \<Rightarrow> string" where
  "replace_backslashes p = map (\<lambda>c. if c = CHR 0x5C then CHR ''/'' else c) p"

fun scan :: "(string \<Rightarrow> string) \<Rightarrow> (string \<times> string) list \<Rightarrow> js_object \<Rightarrow> js_object" where
  "scan sha256 [] files = files"
| "scan sha256 ((path, bytes) # entries) files =
     scan sha256 entries (obj_put files (replace_backslashes path) (sha256 bytes))"

definition scanDirectory :: "(string \<Rightarrow> string) \<Rightarrow> directory \<Rightarrow> js_object" where
  "scanDirectory sha256 dir = scan sha256 (dir_files dir) []"

record diff =
  added :: "string list"
  modified :: "string list"
  deleted :: "string list"
  unchanged :: "string list"

text \<open>
  \<open>generateDiff\<close>: the first loop sorts every entry of the new object into \<open>added\<close>
  (\<open>!oldFiles[p]\<close>), \<open>modified\<close> (\<open>oldFiles[p] !== newHash\<close>) or \<open>unchanged\<close>; the
  second puts every key of the old object with \<open>!newFiles[p]\<close> into \<open>deleted\<close>. Each
  list is in the order of the loop.
\<close>

definition generateDiff :: "(string \<Rightarrow> string) \<Rightarrow> directory \<Rightarrow> directory \<Rightarrow> diff" where
  "generateDiff sha256 oldDir newDir =
     (let oldFiles = scanDirectory sha256 oldDir;
          newFiles = scanDirectory sha256 newDir
      in \<lparr>added = [p. (p, newHash) \<leftarrow> newFiles, \<not> truthy (obj_get oldFiles p)],
          modified = [p. (p, newHash) \<leftarrow> newFiles, truthy (obj_get oldFiles p),
                         obj_get oldFiles p \<noteq> Str newHash],
          deleted = [p. p \<leftarrow> map fst oldFiles, \<not> truthy (obj_get newFiles p)],
          unchanged = [p. (p, newHash) \<leftarrow> newFiles, truthy (obj_get oldFiles p),
                          obj_get oldFiles p = Str newHash]\<rparr>)"

record manifest =
  m_added :: "string list"
  m_modified :: "string list"
  m_deleted :: "string list"

text \<open>
  A delta package: the manifest, serialised as the first entry of the archive under the
  name \<open>diff-manifest.json\<close>, and after it the other entries, each a name and its
  data. The \<open>type\<close> and \<open>timestamp\<close> fields of the manifest are not read back and are
  left out.
\<close>

record package =
  pkg_manifest :: "manifest option"
  pkg_files :: "(string \<times> string) list"

abbreviation manifest_name :: string where
  "manifest_name \<equiv> ''diff-manifest.json''"

record diff_stats =
  stat_diff :: diff
  fullSize :: nat
  diffSize :: nat
  savedBytes :: int
  savedPercent :: int

datatype apply_error = ENOENT | ENOTDIR | EISDIR | MissingManifest | InvalidJson

text \<open>
  A path is a directory above another path when it is a proper prefix of it that ends
  before a \<open>/\<close>.
\<close>

definition parent_dirs :: "string \<Rightarrow> string list" where
  "parent_dirs p = [take i p. i \<leftarrow> [0..<length p], p ! i = CHR ''/'']"

text \<open>
  \<open>fs.stat\<close> of a path below the root of a tree gives the length of a file or the
  size recorded for a directory, and throws when nothing has that path.
\<close>

definition stat_size :: "directory \<Rightarrow> string \<Rightarrow> apply_error + nat" where
  "stat_size dir p =
     (case map_of (dir_files dir) p of
        Some bytes \<Rightarrow> Inr (length bytes)
      | None \<Rightarrow>
          (case map_of (dir_subdirs dir) p of
             Some n \<Rightarrow> Inr n
           | None \<Rightarrow>
               if \<exists>d \<in> set (parent_dirs p). d \<in> fst ` set (dir_files dir) then Inl ENOTDIR
               else Inl ENOENT))"

subsection \<open>Arithmetic on doubles\<close>

text \<open>
  JavaScript numbers are IEEE 754 doubles: every arithmetic operation gives the exact
  result rounded to the nearest number with a significand of 53 bits, a tie to the one
  with an even significand. The values met here (sizes of files and quotients of them)
  are far from the ends of the exponent range. Doubles are represented by the
  rational numbers they denote.
\<close>

function log2_floor :: "int \<Rightarrow> int" where
  "log2_floor n = (if n < 2 then 0 else 1 + log2_floor (n div 2))"
  by pat_completeness auto
termination
  by (relation "measure nat") auto

definition pow2 :: "int \<Rightarrow> rat" where
  "pow2 k = (if 0 \<le> k then 2 ^ nat k else 1 / 2 ^ nat (- k))"

text \<open>The exponent \<open>e\<close> of a positive rational \<open>x\<close>: \<open>2\<^sup>e \<le> x < 2\<^sup>e\<^sup>+\<^sup>1\<close>.\<close>

definition binary_exponent :: "rat \<Rightarrow> int" where
  "binary_exponent x =
     (case quotient_of x of
        (a, b) \<Rightarrow>
          let k = log2_floor a - log2_floor b
          in if pow2 k \<le> x then k else k - 1)"

definition round_half_even :: "rat \<Rightarrow> int" where
  "round_half_even q =
     (let f = \<lfloor>q\<rfloor>; r = q - of_int f
      in if r < 1 / 2 then f
         else if 1 / 2 < r then f + 1
         else if even f then f else f + 1)"

definition to_double :: "rat \<Rightarrow> rat" where
  "to_double x =
     (if x = 0 then 0
      else let ulp = pow2 (binary_exponent \<bar>x\<bar> - 52)
           in of_int (round_half_even (x / ulp)) * ulp)"

text \<open>\<open>Math.round\<close> gives the nearest integer, a half upwards.\<close>

definition math_round :: "rat \<Rightarrow> int" where
  "math_round x = \<lfloor>x + 1 / 2\<rfloor>"

text \<open>\<open>+=\<close> on two sizes; the sum of two whole doubles is a whole double.\<close>

definition double_add :: "nat \<Rightarrow> nat \<Rightarrow> nat" where
  "double_add a b = nat \<lfloor>to_double (of_nat a + of_nat b)\<rfloor>"

subsection \<open>Building a package\<close>

text \<open>
  The loop of \<open>createDiffPackage\<close> over the keys of the scan of the new tree: each
  key is looked up below the new tree with \<open>fs.stat\<close>, which may throw; its size is
  added to \<open>fullSize\<close>, and to \<open>diffSize\<close> when the key is added or modified.
\<close>

fun sum_sizes ::
  "directory \<Rightarrow> diff \<Rightarrow> string list \<Rightarrow> nat \<times> nat \<Rightarrow> apply_error + nat \<times> nat" where
  "sum_sizes newDir d [] (full, dsize) = Inr (full, dsize)"
| "sum_sizes newDir d (relativePath # ks) (full, dsize) =
     (case stat_size newDir relativePath of
        Inl e \<Rightarrow> Inl e
      | Inr n \<Rightarrow>
          sum_sizes newDir d ks
            (double_add full n,
             if relativePath \<in> set (added d) \<or> relativePath \<in> set (modified d)
             then double_add dsize n else dsize))"

text \<open>
  \<open>archive.file(path, {name})\<close>: a regular file is stored under the name with its
  bytes; for a directory the archiver stores the name with a trailing \<open>/\<close> and no data.
  Every name has passed \<open>fs.stat\<close> before.
\<close>

definition archive_entry :: "directory \<Rightarrow> string \<Rightarrow> string \<times> string" where
  "archive_entry newDir p =
     (case map_of (dir_files newDir) p of
        Some bytes \<Rightarrow> (p, bytes)
      | None \<Rightarrow> (p @ ''/'', []))"

text \<open>
  \<open>createDiffPackage\<close>: the diff, the sizes, then the archive with the manifest and
  the added and the modified keys. The saved percentage is computed in doubles,
  \<open>Math.round((1 - diffSize / fullSize) * 100)\<close>. The size of the compressed archive
  is not modelled.
\<close>

definition createDiffPackage ::
  "(string \<Rightarrow> string) \<Rightarrow> directory \<Rightarrow> directory \<Rightarrow> apply_error + package \<times> diff_stats" where
  "createDiffPackage sha256 oldDir newDir =
     (let d = generateDiff sha256 oldDir newDir;
          newFiles = scanDirectory sha256 newDir
      in case sum_sizes newDir d (map fst newFiles) (0, 0) of
           Inl e \<Rightarrow> Inl e
         | Inr (full, dsize) \<Rightarrow>
             Inr (\<lparr>pkg_manifest =
                     Some \<lparr>m_added = added d, m_modified = modified d, m_deleted = deleted d\<rparr>,
                   pkg_files = map (archive_entry newDir) (added d @ modified d)\<rparr>,
                  \<lparr>stat_diff = d,
                   fullSize = full,
                   diffSize = dsize,
                   savedBytes = \<lfloor>to_double (of_nat full - of_nat dsize)\<rfloor>,
                   savedPercent =
                     (if full > 0
                      then math_round
                             (to_double (to_double (1 - to_double (of_nat dsize / of_nat full)) * 100))
                      else 0)\<rparr>))"

subsection \<open>Applying a package\<close>

text \<open>
  The output directory of \<open>applyDiffPackage\<close>: its files and its directories.
  \<open>fs.copy\<close> fills it with the files and the directories of the current tree.
\<close>

record fs =
  files :: "(string \<times> string) list"
  dirs :: "string list"

definition fs_copy :: "directory \<Rightarrow> fs" where
  "fs_copy dir = \<lparr>files = dir_files dir, dirs = map fst (dir_subdirs dir)\<rparr>"

text \<open>\<open>fs.remove\<close> deletes a file, or a directory with all it holds; a missing path is no error.\<close>

definition fs_remove :: "string \<Rightarrow> fs \<Rightarrow> fs" where
  "fs_remove p st =
     \<lparr>files = [(q, bytes) \<leftarrow> files st. q \<noteq> p \<and> p \<notin> set (parent_dirs q)],
      dirs = [d \<leftarrow> dirs st. d \<noteq> p \<and> p \<notin> set (parent_dirs d)]\<rparr>"

text \<open>
  \<open>fs.ensureDir(path.dirname(p))\<close> creates the missing directories above \<open>p\<close> and fails
  when one of them is a file; \<open>fs.writeFile\<close> creates or overwrites the file and fails
  when the path is a directory or ends in \<open>/\<close>.
\<close>

definition fs_ensureDir_of :: "string \<Rightarrow> fs \<Rightarrow> apply_error + fs" where
  "fs_ensureDir_of p st =
     (if \<exists>d \<in> set (parent_dirs p). d \<in> fst ` set (files st) then Inl ENOTDIR
      else Inr (st\<lparr>dirs := dirs st @ [d \<leftarrow> parent_dirs p. d \<notin> set (dirs st)]\<rparr>))"

definition fs_writeFile :: "string \<Rightarrow> string \<Rightarrow> fs \<Rightarrow> apply_error + fs" where
  "fs_writeFile p bytes st =
     (if p \<in> set (dirs st) \<or> (p \<noteq> [] \<and> last p = CHR ''/'') then Inl EISDIR
      else Inr (st\<lparr>files := AList.update p bytes (files st)\<rparr>))"

text \<open>
  The extraction loop of \<open>applyDiffPackage\<close> over the entries of the archive: an entry
  named \<open>diff-manifest.json\<close> is passed over, every other entry is written.
\<close>

fun extract_entries :: "(string \<times> string) list \<Rightarrow> fs \<Rightarrow> apply_error + fs" where
  "extract_entries [] st = Inr st"
| "extract_entries ((entryName, bytes) # entries) st =
     (if entryName = manifest_name then extract_entries entries st
      else (case fs_ensureDir_of entryName st of
              Inl e \<Rightarrow> Inl e
            | Inr st1 \<Rightarrow>
                (case fs_writeFile entryName bytes st1 of
                   Inl e \<Rightarrow> Inl e
                 | Inr st2 \<Rightarrow> extract_entries entries st2)))"

text \<open>
  \<open>zip.getEntry('diff-manifest.json')\<close>: the archive reader keeps its entries in a table
  keyed by name, so of several entries with one name the last is found; a file entry
  of that name hides the manifest and its bytes go through \<open>JSON.parse\<close>, which is a
  parameter (\<open>None\<close> when it throws).
\<close>

definition read_manifest ::
  "(string \<Rightarrow> manifest option) \<Rightarrow> package \<Rightarrow> apply_error + manifest" where
  "read_manifest parseJson pkg =
     (case map_of (rev (pkg_files pkg)) manifest_name of
        Some bytes \<Rightarrow>
          (case parseJson bytes of None \<Rightarrow> Inl InvalidJson | Some m \<Rightarrow> Inr m)
      | None \<Rightarrow>
          (case pkg_manifest pkg of None \<Rightarrow> Inl MissingManifest | Some m \<Rightarrow> Inr m))"

definition apply_manifest :: "manifest \<Rightarrow> package \<Rightarrow> fs \<Rightarrow> apply_error + fs" where
  "apply_manifest m pkg st = extract_entries (pkg_files pkg) (fold fs_remove (m_deleted m) st)"

text \<open>
  \<open>applyDiffPackage\<close>: the current tree is copied to a fresh output directory, the
  manifest is read, the deleted paths are removed and the entries extracted. The result
  is the output directory.
\<close>

definition applyDiffPackage ::
  "(string \<Rightarrow> manifest option) \<Rightarrow> directory \<Rightarrow> package \<Rightarrow> apply_error + fs" where
  "applyDiffPackage parseJson currentDir pkg =
     (case read_manifest parseJson pkg of
        Inl e \<Rightarrow> Inl e
      | Inr m \<Rightarrow> apply_manifest m pkg (fs_copy currentDir))"

text \<open>The package of the diff of two trees is built and applied onto the old tree.\<close>

definition build_and_apply ::
  "(string \<Rightarrow> manifest option) \<Rightarrow> (string \<Rightarrow> string) \<Rightarrow> directory \<Rightarrow> directory
     \<Rightarrow> apply_error + fs" where
  "build_and_apply parseJson sha256 oldDir newDir =
     (case createDiffPackage sha256 oldDir newDir of
        Inl e \<Rightarrow> Inl e
      | Inr (pkg, stats) \<Rightarrow> applyDiffPackage parseJson oldDir pkg)"

text \<open>Two lists of files are content-identical: the same file paths with the same hashes.\<close>

definition content_identical ::
  "(string \<Rightarrow> string) \<Rightarrow> (string \<times> string) list \<Rightarrow> (string \<times> string) list \<Rightarrow> bool" where
  "content_identical sha256 a b =
     (set (map (\<lambda>(p, bytes). (p, sha256 bytes)) a) = set (map (\<lambda>(p, bytes). (p, sha256 bytes)) b))"

text \<open>
  What holds of every tree on disk: no two files with one path, no file path that ends
  in \<open>/\<close>, no path that is both a file and a directory, and every directory above a
  file or a directory is a directory of the tree. \<open>plain_paths\<close> are the trees none of
  whose file paths is a property name of \<open>Object.prototype\<close>, \<open>no_backslash\<close> those
  whose file paths hold no backslash.
\<close>

definition wf_tree :: "directory \<Rightarrow> bool" where
  "wf_tree dir =
     (distinct (map fst (dir_files dir))
      \<and> list_all (\<lambda>p. p \<noteq> [] \<and> last p \<noteq> CHR ''/'') (map fst (dir_files dir))
      \<and> list_all (\<lambda>p. p \<notin> fst ` set (dir_subdirs dir)) (map fst (dir_files dir))
      \<and> list_all (\<lambda>p. list_all (\<lambda>d. d \<in> fst ` set (dir_subdirs dir)) (parent_dirs p))
           (map fst (dir_files dir) @ map fst (dir_subdirs dir)))"

definition plain_paths :: "directory \<Rightarrow> bool" where
  "plain_paths dir = list_all (\<lambda>p. p \<notin> set object_prototype_keys) (map fst (dir_files dir))"

definition no_backslash :: "directory \<Rightarrow> bool" where
  "no_backslash dir = list_all (\<lambda>p. CHR 0x5C \<notin> set p) (map fst (dir_files dir))"

section \<open>Client agent (Android SDK)\<close>

text \<open>
  The persistent state of an installation: the shared preferences \<open>lynx_hot_update\<close>
  and the three directories under the application's files directory, each \<open>None\<close>
  when it does not exist. A directory is the map from its file names to their bytes.
  The assets packaged with the application never change.
\<close>

datatype pref_value = PString string | PBool bool | PInt "32 word"

type_synonym dir = "string \<rightharpoonup> string"

record client_state =
  prefs :: "string \<rightharpoonup> pref_value"
  lynx_bundles :: "dir option"
  lynx_pending :: "dir option"
  lynx_bundles_backup :: "dir option"
  assets :: dir

abbreviation KEY_CURRENT_VERSION :: string where
  "KEY_CURRENT_VERSION \<equiv> ''current_version''"

abbreviation KEY_PENDING_VERSION :: string where
  "KEY_PENDING_VERSION \<equiv> ''pending_version''"

abbreviation KEY_PREVIOUS_VERSION :: string where
  "KEY_PREVIOUS_VERSION \<equiv> ''previous_version''"

text \<open>
  The typed getters of the preferences, with the default as \<open>None\<close> for strings. The SDK
  writes every key with one type only, so a stored value of another type does not occur
  and is read here as the default.
\<close>

definition getString :: "(string \<rightharpoonup> pref_value) \<Rightarrow> string \<Rightarrow> string option" where
  "getString p k = (case p k of Some (PString v) \<Rightarrow> Some v | _ \<Rightarrow> None)"

definition getBoolean :: "(string \<rightharpoonup> pref_value) \<Rightarrow> string \<Rightarrow> bool \<Rightarrow> bool" where
  "getBoolean p k dflt = (case p k of Some (PBool v) \<Rightarrow> v | _ \<Rightarrow> dflt)"

definition getInt :: "(string \<rightharpoonup> pref_value) \<Rightarrow> string \<Rightarrow> 32 word \<Rightarrow> 32 word" where
  "getInt p k dflt = (case p k of Some (PInt v) \<Rightarrow> v | _ \<Rightarrow> dflt)"

definition getCurrentVersion :: "client_state \<Rightarrow> string" where
  "getCurrentVersion s =
     (case getString (prefs s) KEY_CURRENT_VERSION of Some v \<Rightarrow> v | None \<Rightarrow> ''0.0.0'')"

datatype load_error = AssetNotFound

text \<open>
  \<open>loadBundle\<close>: the file of the current generation when it exists, the packaged asset
  otherwise; opening a missing asset throws.
\<close>

definition loadBundle :: "client_state \<Rightarrow> string \<Rightarrow> load_error + string" where
  "loadBundle s bundleName =
     (case (case lynx_bundles s of Some d \<Rightarrow> d bundleName | None \<Rightarrow> None) of
        Some bytes \<Rightarrow> Inr bytes
      | None \<Rightarrow>
          (case assets s bundleName of
             Some bytes \<Rightarrow> Inr bytes
           | None \<Rightarrow> Inl AssetNotFound))"

text \<open>
  \<open>applyPendingUpdate\<close> performs three writes in this order: the directory of the
  current generation is deleted, the pending directory is renamed to it, and the
  preferences are edited (one commit). The renaming finds no directory in its way.
\<close>

definition deleteBundleDir :: "client_state \<Rightarrow> client_state" where
  "deleteBundleDir s = s\<lparr>lynx_bundles := None\<rparr>"

definition renamePendingToBundle :: "client_state \<Rightarrow> client_state" where
  "renamePendingToBundle s = s\<lparr>lynx_bundles := lynx_pending s, lynx_pending := None\<rparr>"

definition commitAppliedVersion :: "string \<Rightarrow> client_state \<Rightarrow> client_state" where
  "commitAppliedVersion pendingVersion s =
     s\<lparr>prefs := (prefs s)(KEY_CURRENT_VERSION \<mapsto> PString pendingVersion,
                            KEY_PENDING_VERSION := None)\<rparr>"

definition applyPendingUpdate :: "client_state \<Rightarrow> client_state" where
  "applyPendingUpdate s =
     (case getString (prefs s) KEY_PENDING_VERSION of
        None \<Rightarrow> s
      | Some pendingVersion \<Rightarrow>
          (case lynx_pending s of
             None \<Rightarrow> s
           | Some pendingDir \<Rightarrow>
               commitAppliedVersion pendingVersion
                 (renamePendingToBundle (deleteBundleDir s))))"

text \<open>
  The persistent states an execution of \<open>applyPendingUpdate\<close> passes through, in order;
  a process killed during the call leaves the installation in one of them.
\<close>

definition applyPendingUpdate_states :: "client_state \<Rightarrow> client_state list" where
  "applyPendingUpdate_states s =
     (case getString (prefs s) KEY_PENDING_VERSION of
        None \<Rightarrow> [s]
      | Some pendingVersion \<Rightarrow>
          (case lynx_pending s of
             None \<Rightarrow> [s]
           | Some pendingDir \<Rightarrow>
               [s,
                deleteBundleDir s,
                renamePendingToBundle (deleteBundleDir s),
                commitAppliedVersion pendingVersion
                  (renamePendingToBundle (deleteBundleDir s))]))"

text \<open>\<open>init\<close> stores its arguments and applies a pending update; it does nothing else.\<close>

definition init :: "client_state \<Rightarrow> client_state" where
  "init s = applyPendingUpdate s"

text \<open>
  Extraction of a package into a fresh directory either completes or throws after
  writing some of the entries. The archive reader is a parameter.
\<close>

datatype unzip_result = Extracted dir | Failed dir

definition installUpdate ::
  "(string \<Rightarrow> unzip_result) \<Rightarrow> string \<Rightarrow> string \<Rightarrow> client_state \<Rightarrow> client_state \<times> bool" where
  "installUpdate unzip zipFile ver s =
     (case unzip zipFile of
        Extracted d \<Rightarrow>
          (s\<lparr>lynx_pending := Some d,
             prefs := (prefs s)(KEY_PENDING_VERSION \<mapsto> PString ver)\<rparr>, True)
      | Failed d \<Rightarrow> (s\<lparr>lynx_pending := Some d\<rparr>, False))"

record update_result =
  ur_updateAvailable :: bool
  ur_version :: "string option"
  ur_downloadUrl :: "string option"
  ur_hash :: "string option"
  ur_size :: int
  ur_description :: string
  ur_mandatory :: bool
  ur_error :: "string option"

text \<open>
  \<open>downloadUpdate\<close>: \<open>fetch\<close> is the transfer of the package (\<open>Inl\<close> the message of the
  exception it throws, \<open>Inr\<close> the bytes received), \<open>sha256\<close> the digest of the received
  file as a hexadecimal string. The result is the new state and the arguments of the
  \<open>onComplete\<close> callback. A null version makes \<open>version!!\<close> throw an exception without
  message, which is caught like a transfer error. The temporary file in the cache
  directory and the progress callback are left out.
\<close>

definition downloadUpdate ::
  "(string \<Rightarrow> string) \<Rightarrow> (string \<Rightarrow> unzip_result) \<Rightarrow> (string \<Rightarrow> string option + string)
     \<Rightarrow> update_result \<Rightarrow> client_state \<Rightarrow> client_state \<times> bool \<times> string option" where
  "downloadUpdate sha256 unzip fetch updateResult s =
     (case ur_downloadUrl updateResult of
        None \<Rightarrow> (s, False, Some ''No update available'')
      | Some url \<Rightarrow>
          if \<not> ur_updateAvailable updateResult then (s, False, Some ''No update available'')
          else
            (case fetch url of
               Inl message \<Rightarrow> (s, False, message)
             | Inr tempFile \<Rightarrow>
                 let fileHash = sha256 tempFile in
                 if ur_hash updateResult \<noteq> None \<and> Some fileHash \<noteq> ur_hash updateResult
                   then (s, False, Some ''Hash verification failed'')
                 else
                   (case ur_version updateResult of
                      None \<Rightarrow> (s, False, None)
                    | Some ver \<Rightarrow>
                        (case installUpdate unzip tempFile ver s of
                           (s', success) \<Rightarrow>
                             if success then (s', True, None)
                             else (s', False, Some ''Installation failed'')))))"

definition clearUpdates :: "client_state \<Rightarrow> client_state" where
  "clearUpdates s = s\<lparr>lynx_bundles := None, lynx_pending := None, prefs := Map.empty\<rparr>"

text \<open>
  The confirmation calls. The install report sent to the server does not change the
  installation and is left out.
\<close>

definition rollbackToPreviousVersion :: "client_state \<Rightarrow> client_state" where
  "rollbackToPreviousVersion s =
     (case getString (prefs s) KEY_PREVIOUS_VERSION of
        None \<Rightarrow> s
      | Some previousVersion \<Rightarrow>
          (case lynx_bundles_backup s of
             None \<Rightarrow> s
           | Some previousBundleDir \<Rightarrow>
               s\<lparr>lynx_bundles := Some previousBundleDir,
                 lynx_bundles_backup := None,
                 prefs := (prefs s)(KEY_CURRENT_VERSION \<mapsto> PString previousVersion,
                                    KEY_PREVIOUS_VERSION := None)\<rparr>))"

definition notifyUpdateSuccess :: "client_state \<Rightarrow> client_state" where
  "notifyUpdateSuccess s =
     (case getString (prefs s) KEY_CURRENT_VERSION of
        None \<Rightarrow> s
      | Some currentVersion \<Rightarrow>
          s\<lparr>prefs := (prefs s)(currentVersion @ ''_confirmed'' \<mapsto> PBool True)\<rparr>)"

definition notifyUpdateFailed :: "client_state \<Rightarrow> client_state" where
  "notifyUpdateFailed s =
     (case getString (prefs s) KEY_CURRENT_VERSION of
        None \<Rightarrow> s
      | Some currentVersion \<Rightarrow> rollbackToPreviousVersion s)"

text \<open>
  \<open>checkAutoRollback\<close> is a private function of the SDK; no function of the SDK calls it.
  The launch counter is a 32-bit integer, compared as a signed number.
\<close>

definition checkAutoRollback :: "client_state \<Rightarrow> client_state" where
  "checkAutoRollback s =
     (case getString (prefs s) KEY_CURRENT_VERSION of
        None \<Rightarrow> s
      | Some currentVersion \<Rightarrow>
          let isConfirmed = getBoolean (prefs s) (currentVersion @ ''_confirmed'') False;
              previousVersion = getString (prefs s) KEY_PREVIOUS_VERSION
          in if \<not> isConfirmed \<and> previousVersion \<noteq> None then
               let launchCount = getInt (prefs s) (currentVersion @ ''_launches'') 0 + 1;
                   s' = s\<lparr>prefs := (prefs s)(currentVersion @ ''_launches'' \<mapsto> PInt launchCount)\<rparr>
               in if word_sle 3 launchCount then rollbackToPreviousVersion s' else s'
             else s)"

text \<open>
  The installations that occur: a fresh installation has no preferences and none of the
  three directories; from there on the installation changes only by the public calls of
  the SDK, \<open>init\<close>, \<open>downloadUpdate\<close> (also through \<open>syncUpdate\<close>), \<open>clearUpdates\<close>,
  \<open>notifyUpdateSuccess\<close> and \<open>notifyUpdateFailed\<close>, with any archive, transfer and server
  answer, and by a process killed inside a call: inside \<open>applyPendingUpdate\<close> in one of
  its intermediate states, inside \<open>installUpdate\<close> with the pending directory deleted or
  partly written, inside \<open>clearUpdates\<close> after the first or the second deletion.
\<close>

definition fresh_install :: "dir \<Rightarrow> client_state" where
  "fresh_install a =
     \<lparr>prefs = Map.empty, lynx_bundles = None, lynx_pending = None,
      lynx_bundles_backup = None, assets = a\<rparr>"

inductive reachable :: "client_state \<Rightarrow> bool" where
  fresh: "reachable (fresh_install a)"
| launch: "reachable s \<Longrightarrow> reachable (init s)"
| download:
    "reachable s \<Longrightarrow> reachable (fst (downloadUpdate sha256 unzip fetch updateResult s))"
| clear: "reachable s \<Longrightarrow> reachable (clearUpdates s)"
| success: "reachable s \<Longrightarrow> reachable (notifyUpdateSuccess s)"
| failed: "reachable s \<Longrightarrow> reachable (notifyUpdateFailed s)"
| killed_in_apply:
    "reachable s \<Longrightarrow> t \<in> set (applyPendingUpdate_states s) \<Longrightarrow> reachable t"
| killed_in_install: "reachable s \<Longrightarrow> reachable (s\<lparr>lynx_pending := d\<rparr>)"
| killed_in_clear_1: "reachable s \<Longrightarrow> reachable (s\<lparr>lynx_bundles := None\<rparr>)"
| killed_in_clear_2:
    "reachable s \<Longrightarrow> reachable (s\<lparr>lynx_bundles := None, lynx_pending := None\<rparr>)"

subsection \<open>Example installations\<close>

definition bundle_v1 :: dir where
  "bundle_v1 = [''main.lynx.bundle'' \<mapsto> ''bundle 1.0.0'']"

definition bundle_v2 :: dir where
  "bundle_v2 = [''main.lynx.bundle'' \<mapsto> ''bundle 2.0.0'']"

definition packaged_assets :: dir where
  "packaged_assets = [''main.lynx.bundle'' \<mapsto> ''bundle 0.0.0'']"

text \<open>Running 1.0.0 with 2.0.0 staged as pending.\<close>

definition staged_state :: client_state where
  "staged_state =
     \<lparr>prefs = [KEY_CURRENT_VERSION \<mapsto> PString ''1.0.0'',
               KEY_PENDING_VERSION \<mapsto> PString ''2.0.0''],
      lynx_bundles = Some bundle_v1, lynx_pending = Some bundle_v2,
      lynx_bundles_backup = None, assets = packaged_assets\<rparr>"

text \<open>
  Running 2.0.0, not confirmed, with the generation of 1.0.0 kept as backup and recorded
  as the previous version.
\<close>

definition unconfirmed_state :: client_state where
  "unconfirmed_state =
     \<lparr>prefs = [KEY_CURRENT_VERSION \<mapsto> PString ''2.0.0'',
               KEY_PREVIOUS_VERSION \<mapsto> PString ''1.0.0''],
      lynx_bundles = Some bundle_v2, lynx_pending = None,
      lynx_bundles_backup = Some bundle_v1, assets = packaged_assets\<rparr>"

text \<open>Running 1.0.0, nothing staged.\<close>

definition running_v1_state :: client_state where
  "running_v1_state =
     \<lparr>prefs = [KEY_CURRENT_VERSION \<mapsto> PString ''1.0.0''],
      lynx_bundles = Some bundle_v1, lynx_pending = None,
      lynx_bundles_backup = None, assets = packaged_assets\<rparr>"

text \<open>An archive reader that extracts every archive to the bundle of 2.0.0.\<close>

definition unzip_v2 :: "string \<Rightarrow> unzip_result" where
  "unzip_v2 zipFile = Extracted bundle_v2"

text \<open>An archive reader that extracts every archive to the bundle of 1.0.0.\<close>

definition unzip_v1 :: "string \<Rightarrow> unzip_result" where
  "unzip_v1 zipFile = Extracted bundle_v1"

definition fetch_ok :: "string \<Rightarrow> string option + string" where
  "fetch_ok url = Inr ''zip bytes''"

definition update_without_hash :: update_result where
  "update_without_hash =
     \<lparr>ur_updateAvailable = True, ur_version = Some ''2.0.0'',
      ur_downloadUrl = Some ''http://localhost:3000/api/download/app-android-2.0.0-2.zip'',
      ur_hash = None, ur_size = 2048, ur_description = ''second'', ur_mandatory = False,
      ur_error = None\<rparr>"

definition update_v1 :: update_result where
  "update_v1 =
     \<lparr>ur_updateAvailable = True, ur_version = Some ''1.0.0'',
      ur_downloadUrl = Some ''http://localhost:3000/api/download/app-android-1.0.0-1.zip'',
      ur_hash = None, ur_size = 1024, ur_description = ''first'', ur_mandatory = False,
      ur_error = None\<rparr>"

subsection \<open>Example trees\<close>

definition tree_a :: directory where
  "tree_a =
     \<lparr>dir_files = [(''main.lynx.bundle'', ''bundle one''), (''res/logo.png'', ''logo''),
                   (''res/old.txt'', ''stale'')],
      dir_subdirs = [(''res'', 4096)]\<rparr>"

definition tree_b :: directory where
  "tree_b =
     \<lparr>dir_files = [(''main.lynx.bundle'', ''bundle two''), (''res/logo.png'', ''logo''),
                   (''res/new/info.txt'', ''fresh'')],
      dir_subdirs = [(''res'', 4096), (''res/new'', 4096)]\<rparr>"

text \<open>The tree \<open>tree_a\<close> with one more file, whose name is the name of the manifest entry.\<close>

definition tree_with_manifest_file :: directory where
  "tree_with_manifest_file =
     tree_a\<lparr>dir_files := dir_files tree_a @ [(manifest_name, ''release notes'')]\<rparr>"

text \<open>The package that \<open>createDiffPackage\<close> builds from \<open>tree_a\<close> to that tree.\<close>

definition manifest_file_package :: package where
  "manifest_file_package =
     \<lparr>pkg_manifest = Some \<lparr>m_added = [manifest_name], m_modified = [], m_deleted = []\<rparr>,
      pkg_files = [(manifest_name, ''release notes'')]\<rparr>"

text \<open>\<open>JSON.parse\<close> on bytes that are not JSON text throws.\<close>

definition parse_fails :: "string \<Rightarrow> manifest option" where
  "parse_fails bytes = None"

text \<open>
  Small trees: a file named like a property of \<open>Object.prototype\<close>; a directory that
  becomes a file, with a file in it or empty; a file whose name holds a backslash, alone
  and beside the file whose path is that name with a slash for the backslash.
\<close>

definition tree_constructor :: directory where
  "tree_constructor = \<lparr>dir_files = [(''constructor'', ''x''), (''a'', ''y'')], dir_subdirs = []\<rparr>"

definition tree_only_a :: directory where
  "tree_only_a = \<lparr>dir_files = [(''a'', ''y'')], dir_subdirs = []\<rparr>"

definition tree_dir_a :: directory where
  "tree_dir_a = \<lparr>dir_files = [(''a/b'', ''x'')], dir_subdirs = [(''a'', 4096)]\<rparr>"

definition tree_empty_dir_a :: directory where
  "tree_empty_dir_a = \<lparr>dir_files = [], dir_subdirs = [(''a'', 4096)]\<rparr>"

definition tree_backslash :: directory where
  "tree_backslash = \<lparr>dir_files = [([CHR ''a'', CHR 0x5C, CHR ''b''], ''x'')], dir_subdirs = []\<rparr>"

definition tree_backslash_pair :: directory where
  "tree_backslash_pair =
     \<lparr>dir_files = [(''a/b'', ''x''), ([CHR ''a'', CHR 0x5C, CHR ''b''], ''y'')],
      dir_subdirs = [(''a'', 4096)]\<rparr>"


section \<open>Properties of the update server\<close>

lemmas example_defs =
  release_2_0_0_def release_1_5_0_def example_data_def example_patched_def
  example_request_def disable_patch_def release_targeted_def release_rollout_0_def
  example_data_rollout_0_def

lemma semver_xyz_examples:
  "valid semver_xyz ''2.0.0''" "valid semver_xyz ''1.5.0''" "valid semver_xyz ''1.0.0''"
  "gt semver_xyz ''2.0.0'' ''1.0.0''" "gt semver_xyz ''1.5.0'' ''1.0.0''"
  by code_simp+

lemmas check_update_defs =
  check_update_def getReleasesForKey_def releasesFile_def findDiffPackage_def

lemma findApplicableRelease_Some_nonempty:
  "findApplicableRelease sv releases cur app = Some r \<Longrightarrow> releases \<noteq> []"
  by (cases releases) simp_all

text \<open>
  The scan never looks at \<open>disabled\<close>: a release the scan selects and that is disabled
  makes the handler answer that there is no update.
\<close>

lemma check_update_selected_disabled:
  assumes "req_deploymentKey req = Some key" and "key \<noteq> []"
    and "findApplicableRelease sv (getReleasesForKey d key (req_platform req))
           (req_currentVersion req) (req_appVersion req) = Some r"
    and "truthy_bool (disabled r)"
  shows "check_update sv sha256 d rnd req = NoUpdate"
  using assms findApplicableRelease_Some_nonempty [OF assms(3)]
  by (simp add: check_update_def Let_def)

text \<open>
  Claim C1, counterexample: once 2.0.0 is patched to disabled, the scan still selects
  2.0.0 and the handler answers that there is no update; release 1.5.0 is not returned.
\<close>

theorem resolve_example_disabled_counterexample:
  "patch_release example_data ''key'' ''android'' ''2.0.0'' disable_patch = Inr example_patched
   \<and> findApplicableRelease semver_xyz (getReleasesForKey example_patched ''key'' ''android'')
        ''1.0.0'' None = Some (release_2_0_0\<lparr>disabled := Some True\<rparr>)
   \<and> check_update semver_xyz tag_digest example_patched 0 example_request = NoUpdate"
  by (simp add: patch_release_def apply_patch_def check_update_defs example_defs
      semver_xyz_examples)

text \<open>
  Claim C1, as amended: for the scope with releases 2.0.0 and 1.5.0 (newest first, both
  rollout 100), the check of a client on 1.0.0 answers with release 2.0.0; after 2.0.0 is
  patched to disabled the same check answers that there is no update, whatever the random
  sample: the scan does not skip disabled entries, and the disabled check that follows
  the scan ends the request.
\<close>

theorem resolve_example_disabled_blocks:
  "check_update semver_xyz sha256 example_data rnd example_request =
     UpdateAvailable
       \<lparr>resp_version = ''2.0.0'',
        resp_downloadUrl = ''http://localhost:3000/api/download/app-android-2.0.0-2.zip'',
        resp_hash = ''h200'', resp_size = 2048, resp_description = ''second'',
        resp_mandatory = False, resp_isDiff = False\<rparr>
   \<and> patch_release example_data ''key'' ''android'' ''2.0.0'' disable_patch = Inr example_patched
   \<and> check_update semver_xyz sha256 example_patched rnd example_request = NoUpdate"
  by (simp add: patch_release_def apply_patch_def check_update_defs example_defs
      semver_xyz_examples)

text \<open>
  Claim C5, counterexample: a release whose range is \<open>>=3.0.0\<close> is returned to a request
  that carries no \<open>appVersion\<close>.
\<close>

theorem no_appVersion_counterexample:
  "targetBinaryVersion release_targeted = Some ''>=3.0.0''
   \<and> findApplicableRelease semver_xyz [release_targeted] ''1.0.0'' None = Some release_targeted"
  by (simp add: example_defs semver_xyz_examples)

text \<open>
  Claim C5, as amended: when the request carries no \<open>appVersion\<close> the target range of a
  release is not consulted at all; the scan returns the first release that differs from
  the client's version and is not known to be older or equal, whatever its range.
\<close>

theorem findApplicableRelease_no_appVersion:
  "findApplicableRelease sv releases cur None =
     find (\<lambda>r. version r \<noteq> cur
                \<and> \<not> (valid sv (version r) \<and> valid sv cur \<and> \<not> gt sv (version r) cur))
       releases"
  by (induction releases) (auto split: option.splits)

text \<open>
  Claim C6: with the random value anywhere in \<open>[0, 1)\<close> (the sample is a hundred times
  it), a selected release with rollout 0 is never offered, and a selected release with
  rollout 100 that is not disabled is always offered.
\<close>

theorem rollout_0_never_100_always:
  assumes "0 \<le> rnd" and "rnd < 1"
    and "req_deploymentKey req0 = Some key0" and "key0 \<noteq> []"
    and "findApplicableRelease sv (getReleasesForKey d0 key0 (req_platform req0))
           (req_currentVersion req0) (req_appVersion req0) = Some r0"
    and "rollout r0 = 0"
    and "req_deploymentKey req1 = Some key1" and "key1 \<noteq> []"
    and "findApplicableRelease sv (getReleasesForKey d1 key1 (req_platform req1))
           (req_currentVersion req1) (req_appVersion req1) = Some r1"
    and "rollout r1 = 100" and "\<not> truthy_bool (disabled r1)"
  shows "check_update sv sha256 d0 rnd req0 = NoUpdate
         \<and> (\<exists>u. check_update sv sha256 d1 rnd req1 = UpdateAvailable u
                \<and> resp_version u = version r1
                \<and> resp_description u = description r1
                \<and> resp_mandatory u = mandatory r1)"
proof
  have "\<not> rnd * 100 < 0" using assms(1) by simp
  with assms(3-6) findApplicableRelease_Some_nonempty [OF assms(5)]
  show "check_update sv sha256 d0 rnd req0 = NoUpdate"
    by (simp add: check_update_def Let_def)
next
  from assms(7-11) findApplicableRelease_Some_nonempty [OF assms(9)]
  show "\<exists>u. check_update sv sha256 d1 rnd req1 = UpdateAvailable u
            \<and> resp_version u = version r1
            \<and> resp_description u = description r1
            \<and> resp_mandatory u = mandatory r1"
    by (simp add: check_update_def Let_def split: option.splits)
qed

theorem rollout_0_never_100_always_witness:
  "check_update semver_xyz tag_digest example_data_rollout_0 (1/2) example_request = NoUpdate
   \<and> (\<exists>u. check_update semver_xyz tag_digest example_data (1/2) example_request
               = UpdateAvailable u
          \<and> resp_version u = version release_2_0_0
          \<and> resp_description u = description release_2_0_0
          \<and> resp_mandatory u = mandatory release_2_0_0)"
  using rollout_0_never_100_always [of "1/2" example_request "''key''" semver_xyz
      example_data_rollout_0 release_rollout_0 example_request "''key''" example_data
      release_2_0_0 tag_digest]
  by (simp add: getReleasesForKey_def releasesFile_def example_defs semver_xyz_examples)

section \<open>Properties of the client agent\<close>

lemmas client_examples =
  bundle_v1_def bundle_v2_def packaged_assets_def staged_state_def unconfirmed_state_def
  running_v1_state_def unzip_v2_def fetch_ok_def update_without_hash_def

lemmas apply_defs =
  applyPendingUpdate_def deleteBundleDir_def renamePendingToBundle_def
  commitAppliedVersion_def getString_def

lemma applyPendingUpdate_idem:
  "applyPendingUpdate (applyPendingUpdate s) = applyPendingUpdate s"
  by (simp add: apply_defs split: option.splits pref_value.splits)

text \<open>
  What \<open>checkAutoRollback\<close> would do if a launch ran it: from the unconfirmed
  installation the third run restores the backup, the first two only count.
\<close>

lemma checkAutoRollback_three_runs:
  "getCurrentVersion (checkAutoRollback (checkAutoRollback unconfirmed_state)) = ''2.0.0''
   \<and> getCurrentVersion
        (checkAutoRollback (checkAutoRollback (checkAutoRollback unconfirmed_state))) = ''1.0.0''
   \<and> lynx_bundles
        (checkAutoRollback (checkAutoRollback (checkAutoRollback unconfirmed_state)))
        = Some bundle_v1"
  by (simp add: checkAutoRollback_def rollbackToPreviousVersion_def getString_def
      getBoolean_def getInt_def getCurrentVersion_def client_examples Let_def word_sle_eq)

text \<open>
  Claim C2, the code at the failing input: the installation runs 2.0.0 unconfirmed, the
  generation of 1.0.0 is its backup. Three launches leave the installation as it was: no
  rollback takes place and the current version stays 2.0.0. The same holds for the
  installation that staged 2.0.0 over 1.0.0: the launch that applies the update keeps no
  backup, and three more launches leave 2.0.0 current.
\<close>

theorem three_launches_no_rollback:
  "init (init (init unconfirmed_state)) = unconfirmed_state
   \<and> getCurrentVersion (init (init (init unconfirmed_state))) = ''2.0.0''
   \<and> lynx_bundles_backup (init (init (init unconfirmed_state))) = Some bundle_v1
   \<and> getCurrentVersion (init (init (init (init staged_state)))) = ''2.0.0''
   \<and> lynx_bundles_backup (init staged_state) = None"
  by (simp add: init_def apply_defs getCurrentVersion_def client_examples)


lemma running_v1_state_reachable: "reachable running_v1_state"
proof -
  have "reachable (init (fst (downloadUpdate tag_digest unzip_v1 fetch_ok update_v1
                                (fresh_install packaged_assets))))"
    by (intro reachable.launch reachable.download reachable.fresh)
  moreover have "init (fst (downloadUpdate tag_digest unzip_v1 fetch_ok update_v1
                              (fresh_install packaged_assets))) = running_v1_state"
    by (simp add: init_def apply_defs downloadUpdate_def installUpdate_def fresh_install_def
        update_v1_def fetch_ok_def unzip_v1_def running_v1_state_def Let_def)
  ultimately show ?thesis by simp
qed

lemma staged_state_reachable: "reachable staged_state"
proof -
  have "reachable (fst (downloadUpdate tag_digest unzip_v2 fetch_ok update_without_hash
                          running_v1_state))"
    by (intro reachable.download running_v1_state_reachable)
  moreover have "fst (downloadUpdate tag_digest unzip_v2 fetch_ok update_without_hash
                        running_v1_state) = staged_state"
    by (simp add: downloadUpdate_def installUpdate_def update_without_hash_def fetch_ok_def
        unzip_v2_def running_v1_state_def staged_state_def Let_def)
  ultimately show ?thesis by simp
qed

text \<open>
  The states of an interrupted \<open>applyPendingUpdate\<close>: with a pending generation staged,
  every state the call passes through either has a current generation, or still has the
  pending generation and its recorded version, and the \<open>applyPendingUpdate\<close> of the next
  start ends in the state of the uninterrupted call. After the deletion bundles load
  from the packaged assets. The finished call has promoted pending to current.
\<close>

lemma applyPendingUpdate_interrupted:
  assumes "getString (prefs s) KEY_PENDING_VERSION = Some pv" and "lynx_pending s = Some p"
  shows "list_all
           (\<lambda>t. case lynx_bundles t of
                  Some b \<Rightarrow> True
                | None \<Rightarrow> lynx_pending t = Some p
                          \<and> getString (prefs t) KEY_PENDING_VERSION = Some pv
                          \<and> applyPendingUpdate t = applyPendingUpdate s)
           (applyPendingUpdate_states s)
         \<and> applyPendingUpdate_states s ! 1 = deleteBundleDir s
         \<and> lynx_bundles (deleteBundleDir s) = None
         \<and> loadBundle (deleteBundleDir s) bundleName =
             (case assets s bundleName of Some bytes \<Rightarrow> Inr bytes | None \<Rightarrow> Inl AssetNotFound)
         \<and> last (applyPendingUpdate_states s) = applyPendingUpdate s
         \<and> lynx_bundles (applyPendingUpdate s) = Some p
         \<and> lynx_pending (applyPendingUpdate s) = None
         \<and> getCurrentVersion (applyPendingUpdate s) = pv"
  using assms
  by (simp add: applyPendingUpdate_states_def apply_defs getCurrentVersion_def
      loadBundle_def split: option.splits)

text \<open>
  Claim C3, the code at the failing input: the installation runs 1.0.0 and has staged
  2.0.0, a state that the calls of the SDK produce. \<open>applyPendingUpdate\<close> promotes the
  pending generation to current and moves nothing to backup: afterwards there is no
  backup directory and no recorded previous version, no state the call passes through
  has a backup directory, and \<open>notifyUpdateFailed\<close>, whose rollback restores the backup,
  changes nothing. After the first write of the call the current generation of 1.0.0
  is deleted, not moved.
\<close>

theorem apply_keeps_no_backup:
  "reachable staged_state
   \<and> lynx_bundles staged_state = Some bundle_v1
   \<and> getCurrentVersion staged_state = ''1.0.0''
   \<and> lynx_bundles (applyPendingUpdate staged_state) = Some bundle_v2
   \<and> getCurrentVersion (applyPendingUpdate staged_state) = ''2.0.0''
   \<and> lynx_bundles_backup (applyPendingUpdate staged_state) = None
   \<and> getString (prefs (applyPendingUpdate staged_state)) KEY_PREVIOUS_VERSION = None
   \<and> notifyUpdateFailed (applyPendingUpdate staged_state) = applyPendingUpdate staged_state
   \<and> list_all (\<lambda>t. lynx_bundles_backup t = None) (applyPendingUpdate_states staged_state)
   \<and> lynx_bundles (applyPendingUpdate_states staged_state ! 1) = None"
  using staged_state_reachable
  by (simp add: applyPendingUpdate_states_def apply_defs notifyUpdateFailed_def
      rollbackToPreviousVersion_def getCurrentVersion_def staged_state_def)

text \<open>\<open>clearUpdates\<close> does not touch the backup directory.\<close>

lemma clearUpdates_leaves_backup:
  "lynx_bundles_backup (clearUpdates s) = lynx_bundles_backup s
   \<and> lynx_bundles (clearUpdates s) = None
   \<and> lynx_pending (clearUpdates s) = None
   \<and> prefs (clearUpdates s) = Map.empty"
  by (simp add: clearUpdates_def)



text \<open>
  Claim C9: after a successful stage and one \<open>applyPendingUpdate\<close>, nothing is pending
  and a second \<open>applyPendingUpdate\<close> (so a second \<open>init\<close>) changes nothing at all: the
  current generation is the staged one and the recorded version the staged version,
  before and after.
\<close>

theorem second_apply_is_noop:
  assumes "unzip zipFile = Extracted d"
  shows "applyPendingUpdate (applyPendingUpdate (fst (installUpdate unzip zipFile ver s)))
           = applyPendingUpdate (fst (installUpdate unzip zipFile ver s))
       \<and> init (init (fst (installUpdate unzip zipFile ver s)))
           = init (fst (installUpdate unzip zipFile ver s))
       \<and> lynx_pending (applyPendingUpdate (fst (installUpdate unzip zipFile ver s))) = None
       \<and> getString (prefs (applyPendingUpdate (fst (installUpdate unzip zipFile ver s))))
            KEY_PENDING_VERSION = None
       \<and> lynx_bundles (applyPendingUpdate (fst (installUpdate unzip zipFile ver s))) = Some d
       \<and> getCurrentVersion (applyPendingUpdate (fst (installUpdate unzip zipFile ver s))) = ver"
  using assms
  by (simp add: installUpdate_def apply_defs getCurrentVersion_def init_def)

theorem second_apply_is_noop_witness:
  "applyPendingUpdate
     (applyPendingUpdate (fst (installUpdate unzip_v2 ''zip bytes'' ''2.0.0'' running_v1_state)))
     = applyPendingUpdate (fst (installUpdate unzip_v2 ''zip bytes'' ''2.0.0'' running_v1_state))
   \<and> init (init (fst (installUpdate unzip_v2 ''zip bytes'' ''2.0.0'' running_v1_state)))
       = init (fst (installUpdate unzip_v2 ''zip bytes'' ''2.0.0'' running_v1_state))
   \<and> lynx_pending
       (applyPendingUpdate (fst (installUpdate unzip_v2 ''zip bytes'' ''2.0.0'' running_v1_state)))
       = None
   \<and> getString
       (prefs (applyPendingUpdate
                 (fst (installUpdate unzip_v2 ''zip bytes'' ''2.0.0'' running_v1_state))))
       KEY_PENDING_VERSION = None
   \<and> lynx_bundles
       (applyPendingUpdate (fst (installUpdate unzip_v2 ''zip bytes'' ''2.0.0'' running_v1_state)))
       = Some bundle_v2
   \<and> getCurrentVersion
       (applyPendingUpdate (fst (installUpdate unzip_v2 ''zip bytes'' ''2.0.0'' running_v1_state)))
       = ''2.0.0''"
proof -
  have "unzip_v2 ''zip bytes'' = Extracted bundle_v2"
    by (simp add: unzip_v2_def)
  then show ?thesis
    by (rule second_apply_is_noop)
qed

text \<open>
  Claim C10: when the transfer of the package succeeds, a result without hash is staged
  whatever the digest of the received bytes is, exactly as \<open>installUpdate\<close> stages it;
  and the call ends with "Hash verification failed", the state unchanged, exactly when
  the result carries a hash and the digest of the received bytes differs from it.
\<close>

theorem downloadUpdate_hash_check:
  assumes "ur_updateAvailable ur" and "ur_downloadUrl ur = Some url"
    and "fetch url = Inr bytes" and "ur_version ur = Some ver"
    and "unzip bytes = Extracted d"
  shows "downloadUpdate sha256 unzip fetch (ur\<lparr>ur_hash := None\<rparr>) s =
           (fst (installUpdate unzip bytes ver s), True, None)
       \<and> lynx_pending (fst (downloadUpdate sha256 unzip fetch (ur\<lparr>ur_hash := None\<rparr>) s)) = Some d
       \<and> getString (prefs (fst (downloadUpdate sha256 unzip fetch (ur\<lparr>ur_hash := None\<rparr>) s)))
            KEY_PENDING_VERSION = Some ver
       \<and> (downloadUpdate sha256 unzip' fetch ur s = (s, False, Some ''Hash verification failed''))
           = (\<exists>h. ur_hash ur = Some h \<and> sha256 bytes \<noteq> h)"
  using assms
  by (auto simp: downloadUpdate_def installUpdate_def getString_def Let_def
      split: unzip_result.splits)

theorem downloadUpdate_hash_check_witness:
  "downloadUpdate tag_digest unzip_v2 fetch_ok (update_without_hash\<lparr>ur_hash := None\<rparr>)
       running_v1_state =
     (fst (installUpdate unzip_v2 ''zip bytes'' ''2.0.0'' running_v1_state), True, None)
   \<and> lynx_pending
       (fst (downloadUpdate tag_digest unzip_v2 fetch_ok (update_without_hash\<lparr>ur_hash := None\<rparr>)
               running_v1_state)) = Some bundle_v2
   \<and> getString
       (prefs (fst (downloadUpdate tag_digest unzip_v2 fetch_ok
                      (update_without_hash\<lparr>ur_hash := None\<rparr>) running_v1_state)))
       KEY_PENDING_VERSION = Some ''2.0.0''
   \<and> (downloadUpdate tag_digest unzip_v2 fetch_ok update_without_hash running_v1_state
        = (running_v1_state, False, Some ''Hash verification failed''))
       = (\<exists>h. ur_hash update_without_hash = Some h \<and> tag_digest ''zip bytes'' \<noteq> h)"
proof -
  have "ur_updateAvailable update_without_hash"
    and "ur_downloadUrl update_without_hash
           = Some ''http://localhost:3000/api/download/app-android-2.0.0-2.zip''"
    and "fetch_ok ''http://localhost:3000/api/download/app-android-2.0.0-2.zip''
           = Inr ''zip bytes''"
    and "ur_version update_without_hash = Some ''2.0.0''"
    and "unzip_v2 ''zip bytes'' = Extracted bundle_v2"
    by (simp_all add: update_without_hash_def fetch_ok_def unzip_v2_def)
  then show ?thesis
    by (rule downloadUpdate_hash_check)
qed

section \<open>Properties of delta packages\<close>

lemma obj_put_distinct: "distinct (map fst obj) \<Longrightarrow> distinct (map fst (obj_put obj k v))"
  by (simp add: obj_put_def distinct_update)

lemma map_of_obj_put:
  "map_of (obj_put obj k v) = (if k = ''__proto__'' then map_of obj else (map_of obj)(k \<mapsto> v))"
  by (simp add: obj_put_def update_conv')

lemma scan_distinct: "distinct (map fst acc) \<Longrightarrow> distinct (map fst (scan sha256 es acc))"
  by (induction es arbitrary: acc) (auto simp: obj_put_distinct)

lemma scanDirectory_distinct: "distinct (map fst (scanDirectory sha256 dir))"
  by (simp add: scanDirectory_def scan_distinct)

lemma scan_values:
  "map_of (scan sha256 es acc) p = Some h \<Longrightarrow> map_of acc p = Some h \<or> h \<in> range sha256"
proof (induction es arbitrary: acc)
  case Nil
  then show ?case by simp
next
  case (Cons e es)
  obtain q bytes where e: "e = (q, bytes)" by (cases e)
  from Cons.prems
  have "map_of (scan sha256 es (obj_put acc (replace_backslashes q) (sha256 bytes))) p = Some h"
    by (simp add: e)
  then have "map_of (obj_put acc (replace_backslashes q) (sha256 bytes)) p = Some h
               \<or> h \<in> range sha256"
    by (rule Cons.IH)
  then show ?case
    by (auto simp: map_of_obj_put split: if_splits)
qed

lemma scanDirectory_values:
  assumes "(p, h) \<in> set (scanDirectory sha256 dir)"
  shows "h \<in> range sha256"
proof -
  have "map_of (scanDirectory sha256 dir) p = Some h"
    using assms scanDirectory_distinct by (simp add: map_of_eq_Some_iff)
  then show ?thesis
    using scan_values [of sha256 "dir_files dir" "[]" p h] by (simp add: scanDirectory_def)
qed

lemma scanDirectory_get_own:
  assumes "(p, h) \<in> set (scanDirectory sha256 dir)"
  shows "obj_get (scanDirectory sha256 dir) p = Str h"
  using assms scanDirectory_distinct [of sha256 dir]
  by (simp add: obj_get_def map_of_eq_Some_iff)

lemma generateDiff_same:
  assumes "\<forall>bytes. sha256 bytes \<noteq> []"
  shows "added (generateDiff sha256 dir dir) = []" and "modified (generateDiff sha256 dir dir) = []"
proof -
  have own: "obj_get (scanDirectory sha256 dir) p = Str h \<and> h \<noteq> []"
    if "(p, h) \<in> set (scanDirectory sha256 dir)" for p h
    using that scanDirectory_get_own [OF that] scanDirectory_values [OF that] assms by auto
  show "added (generateDiff sha256 dir dir) = []"
    using own by (auto simp: generateDiff_def Let_def)
  show "modified (generateDiff sha256 dir dir) = []"
    using own by (auto simp: generateDiff_def Let_def)
qed

lemma to_double_0: "to_double 0 = 0"
  by (simp add: to_double_def)

lemma to_double_1: "to_double 1 = 1"
  by code_simp

lemma to_double_100: "to_double 100 = 100"
  by code_simp

lemma math_round_100: "math_round 100 = 100"
  by code_simp

lemma sum_sizes_no_change:
  assumes "added d = []" and "modified d = []"
    and "sum_sizes newDir d ks (full, dsize) = Inr (full', dsize')"
  shows "dsize' = dsize"
  using assms(3)
proof (induction ks arbitrary: full)
  case Nil
  then show ?case by simp
next
  case (Cons k ks)
  then show ?case
    using assms(1,2) by (auto split: sum.splits)
qed

lemma stats_no_change:
  assumes "added (generateDiff sha256 oldDir newDir) = []"
    and "modified (generateDiff sha256 oldDir newDir) = []"
    and "createDiffPackage sha256 oldDir newDir = Inr (pkg, st)"
  shows "stat_diff st = generateDiff sha256 oldDir newDir"
    and "diffSize st = 0"
    and "savedPercent st = (if 0 < fullSize st then 100 else 0)"
proof -
  from assms(3) obtain full dsize where
    sums: "sum_sizes newDir (generateDiff sha256 oldDir newDir)
             (map fst (scanDirectory sha256 newDir)) (0, 0) = Inr (full, dsize)"
    and st: "st = \<lparr>stat_diff = generateDiff sha256 oldDir newDir,
                   fullSize = full,
                   diffSize = dsize,
                   savedBytes = \<lfloor>to_double (of_nat full - of_nat dsize)\<rfloor>,
                   savedPercent =
                     (if full > 0
                      then math_round
                             (to_double (to_double (1 - to_double (of_nat dsize / of_nat full)) * 100))
                      else 0)\<rparr>"
    by (auto simp: createDiffPackage_def Let_def split: sum.splits)
  have d0: "dsize = 0"
    by (rule sum_sizes_no_change [OF assms(1,2) sums])
  show "stat_diff st = generateDiff sha256 oldDir newDir"
    by (simp add: st)
  show "diffSize st = 0"
    by (simp add: st d0)
  show "savedPercent st = (if 0 < fullSize st then 100 else 0)"
    by (simp add: st d0 to_double_0 to_double_1 to_double_100 math_round_100)
qed

text \<open>
  The percentage is computed on doubles: for a delta of 17 bytes against a full size of
  40 bytes the product is just below 57.5 and is rounded to 57.
\<close>

lemma savedPercent_double_rounding:
  "math_round (to_double (to_double (1 - to_double (17 / 40)) * 100)) = 57"
  by code_simp

lemma proto_key: "''__proto__'' \<in> set object_prototype_keys"
  by (simp add: object_prototype_keys_def)

lemma plain_pathsD:
  "plain_paths dir \<Longrightarrow> p \<in> fst ` set (dir_files dir) \<Longrightarrow> p \<notin> set object_prototype_keys"
  by (auto simp: plain_paths_def list_all_iff)

lemma replace_backslashes_id: "CHR 0x5C \<notin> set p \<Longrightarrow> replace_backslashes p = p"
  unfolding replace_backslashes_def by (rule map_idI) auto

lemma no_backslashD:
  "no_backslash dir \<Longrightarrow> p \<in> fst ` set (dir_files dir) \<Longrightarrow> replace_backslashes p = p"
  by (rule replace_backslashes_id) (auto simp: no_backslash_def list_all_iff)

lemma scan_keys:
  "fst ` set (scan sha256 es acc) \<subseteq> fst ` set acc \<union> replace_backslashes ` fst ` set es"
proof (induction es arbitrary: acc)
  case Nil
  then show ?case by simp
next
  case (Cons e es)
  obtain q b where e: "e = (q, b)" by (cases e)
  have "fst ` set (obj_put acc (replace_backslashes q) (sha256 b))
          \<subseteq> fst ` set acc \<union> {replace_backslashes q}"
    by (auto simp: obj_put_def dom_update)
  with Cons.IH [of "obj_put acc (replace_backslashes q) (sha256 b)"] show ?case
    by (auto simp: e)
qed

lemma scan_map_of:
  assumes "distinct (map fst es)" and "''__proto__'' \<notin> fst ` set es"
    and "\<forall>p \<in> fst ` set es. replace_backslashes p = p"
  shows "map_of (scan sha256 es acc) p =
           (case map_of es p of Some bytes \<Rightarrow> Some (sha256 bytes) | None \<Rightarrow> map_of acc p)"
  using assms
proof (induction es arbitrary: acc)
  case Nil
  then show ?case by simp
next
  case (Cons e es)
  obtain q b where e: "e = (q, b)" by (cases e)
  from Cons.prems have d: "distinct (map fst es)" and np: "''__proto__'' \<notin> fst ` set es"
    and nb: "\<forall>p \<in> fst ` set es. replace_backslashes p = p"
    and q: "q \<noteq> ''__proto__''" and qn: "map_of es q = None"
    and rq: "replace_backslashes q = q"
    by (auto simp: e map_of_eq_None_iff)
  show ?case
    using Cons.IH [OF d np nb, of "obj_put acc q (sha256 b)"] q qn
    by (simp add: e rq map_of_obj_put split: option.splits)
qed

lemma wf_tree_distinct: "wf_tree dir \<Longrightarrow> distinct (map fst (dir_files dir))"
  by (simp add: wf_tree_def)

lemma scanDirectory_map_of:
  assumes "wf_tree dir" and "plain_paths dir" and "no_backslash dir"
  shows "map_of (scanDirectory sha256 dir) p = map_option sha256 (map_of (dir_files dir) p)"
proof -
  have "''__proto__'' \<notin> fst ` set (dir_files dir)"
    using plain_pathsD [OF assms(2)] proto_key by blast
  moreover have "\<forall>p \<in> fst ` set (dir_files dir). replace_backslashes p = p"
    using no_backslashD [OF assms(3)] by blast
  ultimately show ?thesis
    using wf_tree_distinct [OF assms(1)]
    by (simp add: scanDirectory_def scan_map_of split: option.splits)
qed

lemma scanDirectory_get:
  assumes "wf_tree dir" and "plain_paths dir" and "no_backslash dir"
  shows "obj_get (scanDirectory sha256 dir) p =
           (case map_of (dir_files dir) p of
              Some bytes \<Rightarrow> Str (sha256 bytes)
            | None \<Rightarrow> if p \<in> set object_prototype_keys then Inherited else Undefined)"
  by (simp add: obj_get_def scanDirectory_map_of [OF assms] split: option.splits)

lemma scanDirectory_mem:
  assumes "wf_tree dir" and "plain_paths dir" and "no_backslash dir"
  shows "(p, h) \<in> set (scanDirectory sha256 dir)
           \<longleftrightarrow> (\<exists>bytes. map_of (dir_files dir) p = Some bytes \<and> h = sha256 bytes)"
proof -
  have "(p, h) \<in> set (scanDirectory sha256 dir) \<longleftrightarrow> map_of (scanDirectory sha256 dir) p = Some h"
    using scanDirectory_distinct [of sha256 dir] by (simp add: map_of_eq_Some_iff)
  then show ?thesis
    by (auto simp: scanDirectory_map_of [OF assms])
qed

lemma plain_paths_map_of:
  "plain_paths dir \<Longrightarrow> map_of (dir_files dir) p = Some b \<Longrightarrow> p \<notin> set object_prototype_keys"
proof -
  assume pl: "plain_paths dir" and m: "map_of (dir_files dir) p = Some b"
  from m have "(p, b) \<in> set (dir_files dir)" by (rule map_of_SomeD)
  then have "p \<in> fst ` set (dir_files dir)" by force
  with pl show ?thesis by (rule plain_pathsD)
qed

lemma truthy_get:
  assumes "wf_tree dir" and "plain_paths dir" and "no_backslash dir"
    and "\<forall>bytes. sha256 bytes \<noteq> []"
  shows "truthy (obj_get (scanDirectory sha256 dir) p)
           \<longleftrightarrow> map_of (dir_files dir) p \<noteq> None \<or> p \<in> set object_prototype_keys"
  using assms(4) by (simp add: scanDirectory_get [OF assms(1,2,3)] split: option.splits)

lemma scanDirectory_key_iff:
  assumes "wf_tree dir" and "plain_paths dir" and "no_backslash dir"
  shows "(\<exists>h. (p, h) \<in> set (scanDirectory sha256 dir)) \<longleftrightarrow> map_of (dir_files dir) p \<noteq> None"
  by (auto simp: scanDirectory_mem [OF assms])

text \<open>The three lists of the diff, as sets.\<close>

lemma set_added:
  assumes "wf_tree oldDir" "plain_paths oldDir" "no_backslash oldDir"
    and "wf_tree newDir" "plain_paths newDir" "no_backslash newDir"
    and "\<forall>bytes. sha256 bytes \<noteq> []"
  shows "set (added (generateDiff sha256 oldDir newDir))
           = {p. map_of (dir_files newDir) p \<noteq> None \<and> map_of (dir_files oldDir) p = None}"
proof -
  have "p \<in> set (added (generateDiff sha256 oldDir newDir))
          \<longleftrightarrow> map_of (dir_files newDir) p \<noteq> None \<and> map_of (dir_files oldDir) p = None" for p
  proof -
    have "p \<in> set (added (generateDiff sha256 oldDir newDir))
            \<longleftrightarrow> (\<exists>h. (p, h) \<in> set (scanDirectory sha256 newDir))
                 \<and> \<not> truthy (obj_get (scanDirectory sha256 oldDir) p)"
      by (auto simp: generateDiff_def Let_def)
    also have "\<dots> \<longleftrightarrow> map_of (dir_files newDir) p \<noteq> None
                 \<and> \<not> (map_of (dir_files oldDir) p \<noteq> None \<or> p \<in> set object_prototype_keys)"
      by (simp only: scanDirectory_key_iff [OF assms(4,5,6)] truthy_get [OF assms(1,2,3,7)])
    finally show ?thesis
      using plain_paths_map_of [OF assms(5), of p] by auto
  qed
  then show ?thesis by blast
qed

lemma set_modified:
  assumes "wf_tree oldDir" "plain_paths oldDir" "no_backslash oldDir"
    and "wf_tree newDir" "plain_paths newDir" "no_backslash newDir"
    and "\<forall>bytes. sha256 bytes \<noteq> []"
  shows "set (modified (generateDiff sha256 oldDir newDir)) =
           {p. \<exists>b b'. map_of (dir_files oldDir) p = Some b \<and> map_of (dir_files newDir) p = Some b'
                      \<and> sha256 b \<noteq> sha256 b'}"
proof -
  have "p \<in> set (modified (generateDiff sha256 oldDir newDir))
          \<longleftrightarrow> (\<exists>b b'. map_of (dir_files oldDir) p = Some b \<and> map_of (dir_files newDir) p = Some b'
                      \<and> sha256 b \<noteq> sha256 b')" for p
  proof -
    have "p \<in> set (modified (generateDiff sha256 oldDir newDir))
            \<longleftrightarrow> (\<exists>h. (p, h) \<in> set (scanDirectory sha256 newDir)
                     \<and> truthy (obj_get (scanDirectory sha256 oldDir) p)
                     \<and> obj_get (scanDirectory sha256 oldDir) p \<noteq> Str h)"
      by (auto simp: generateDiff_def Let_def)
    also have "\<dots> \<longleftrightarrow> (\<exists>b'. map_of (dir_files newDir) p = Some b'
                     \<and> (map_of (dir_files oldDir) p \<noteq> None \<or> p \<in> set object_prototype_keys)
                     \<and> obj_get (scanDirectory sha256 oldDir) p \<noteq> Str (sha256 b'))"
      by (auto simp: scanDirectory_mem [OF assms(4,5,6)] truthy_get [OF assms(1,2,3,7)])
    finally show ?thesis
      using plain_paths_map_of [OF assms(5), of p]
      by (auto simp: scanDirectory_get [OF assms(1,2,3)])
  qed
  then show ?thesis by blast
qed

lemma set_deleted:
  assumes "wf_tree oldDir" "plain_paths oldDir" "no_backslash oldDir"
    and "wf_tree newDir" "plain_paths newDir" "no_backslash newDir"
    and "\<forall>bytes. sha256 bytes \<noteq> []"
  shows "set (deleted (generateDiff sha256 oldDir newDir))
           = {p. map_of (dir_files oldDir) p \<noteq> None \<and> map_of (dir_files newDir) p = None}"
proof -
  have "p \<in> set (deleted (generateDiff sha256 oldDir newDir))
          \<longleftrightarrow> map_of (dir_files oldDir) p \<noteq> None \<and> map_of (dir_files newDir) p = None" for p
  proof -
    have "p \<in> set (deleted (generateDiff sha256 oldDir newDir))
            \<longleftrightarrow> (\<exists>h. (p, h) \<in> set (scanDirectory sha256 oldDir))
                 \<and> \<not> truthy (obj_get (scanDirectory sha256 newDir) p)"
      by (force simp: generateDiff_def Let_def)
    also have "\<dots> \<longleftrightarrow> map_of (dir_files oldDir) p \<noteq> None
                 \<and> \<not> (map_of (dir_files newDir) p \<noteq> None \<or> p \<in> set object_prototype_keys)"
      by (simp only: scanDirectory_key_iff [OF assms(1,2,3)] truthy_get [OF assms(4,5,6,7)])
    finally show ?thesis
      using plain_paths_map_of [OF assms(2), of p] by auto
  qed
  then show ?thesis by blast
qed

text \<open>When every key of the scan is a file of the new tree, the package is built.\<close>

lemma sum_sizes_ok:
  assumes "\<forall>k \<in> set ks. map_of (dir_files newDir) k \<noteq> None"
  shows "\<exists>r. sum_sizes newDir d ks acc = Inr r"
  using assms
proof (induction ks arbitrary: acc)
  case Nil
  then show ?case by (cases acc) simp
next
  case (Cons k ks)
  obtain full dsize where acc: "acc = (full, dsize)" by (cases acc)
  from Cons.prems obtain b where "map_of (dir_files newDir) k = Some b" by auto
  then have "stat_size newDir k = Inr (length b)"
    by (simp add: stat_size_def)
  moreover from Cons.prems have "\<forall>k \<in> set ks. map_of (dir_files newDir) k \<noteq> None" by simp
  ultimately show ?case
    using Cons.IH by (simp add: acc)
qed

lemma createDiffPackage_ok:
  assumes "no_backslash newDir"
  shows "\<exists>st. createDiffPackage sha256 oldDir newDir =
           Inr (\<lparr>pkg_manifest =
                   Some \<lparr>m_added = added (generateDiff sha256 oldDir newDir),
                         m_modified = modified (generateDiff sha256 oldDir newDir),
                         m_deleted = deleted (generateDiff sha256 oldDir newDir)\<rparr>,
                 pkg_files = map (archive_entry newDir)
                               (added (generateDiff sha256 oldDir newDir)
                                @ modified (generateDiff sha256 oldDir newDir))\<rparr>, st)"
proof -
  have "k \<in> fst ` set (dir_files newDir)" if "k \<in> fst ` set (scanDirectory sha256 newDir)" for k
  proof -
    from that scan_keys [of sha256 "dir_files newDir" "[]"]
    have "k \<in> replace_backslashes ` fst ` set (dir_files newDir)"
      unfolding scanDirectory_def by auto
    then obtain p where "p \<in> fst ` set (dir_files newDir)" "k = replace_backslashes p"
      by blast
    then show ?thesis using no_backslashD [OF assms] by simp
  qed
  then have "\<forall>k \<in> set (map fst (scanDirectory sha256 newDir)). map_of (dir_files newDir) k \<noteq> None"
    by (simp add: map_of_eq_None_iff)
  from sum_sizes_ok [OF this] obtain r where
    "sum_sizes newDir (generateDiff sha256 oldDir newDir)
       (map fst (scanDirectory sha256 newDir)) (0, 0) = Inr r"
    by blast
  then show ?thesis
    by (cases r) (simp add: createDiffPackage_def Let_def)
qed

lemma set_parent_dirs:
  "set (parent_dirs p) = {take i p | i. i < length p \<and> p ! i = CHR ''/''}"
  by (auto simp: parent_dirs_def)

lemma wf_tree_file_not_dir:
  "wf_tree dir \<Longrightarrow> p \<in> fst ` set (dir_files dir) \<Longrightarrow> p \<notin> fst ` set (dir_subdirs dir)"
  by (auto simp: wf_tree_def list_all_iff)

lemma wf_tree_file_name:
  "wf_tree dir \<Longrightarrow> p \<in> fst ` set (dir_files dir) \<Longrightarrow> \<not> (p \<noteq> [] \<and> last p = CHR ''/'')"
  by (auto simp: wf_tree_def list_all_iff)

lemma wf_tree_parents:
  "wf_tree dir \<Longrightarrow> p \<in> fst ` set (dir_files dir) \<union> fst ` set (dir_subdirs dir)
     \<Longrightarrow> d \<in> set (parent_dirs p) \<Longrightarrow> d \<in> fst ` set (dir_subdirs dir)"
  by (auto simp: wf_tree_def list_all_iff)

lemma wf_tree_file_not_parent:
  assumes "wf_tree dir" and "p \<in> fst ` set (dir_files dir)"
    and "q \<in> fst ` set (dir_files dir) \<union> fst ` set (dir_subdirs dir)"
  shows "p \<notin> set (parent_dirs q)"
  using wf_tree_parents [OF assms(1,3), of p] wf_tree_file_not_dir [OF assms(1,2)] by blast

lemma fs_remove_file:
  assumes "\<forall>q \<in> fst ` set (files st). p \<notin> set (parent_dirs q)"
    and "\<forall>d \<in> set (dirs st). d \<noteq> p \<and> p \<notin> set (parent_dirs d)"
  shows "fs_remove p st = \<lparr>files = [(q, b) \<leftarrow> files st. q \<noteq> p], dirs = dirs st\<rparr>"
proof -
  have "[(q, b) \<leftarrow> files st. q \<noteq> p \<and> p \<notin> set (parent_dirs q)] = [(q, b) \<leftarrow> files st. q \<noteq> p]"
    using assms(1) by (intro filter_cong) force+
  moreover have "[d \<leftarrow> dirs st. d \<noteq> p \<and> p \<notin> set (parent_dirs d)] = dirs st"
    using assms(2) by (simp add: filter_id_conv)
  ultimately show ?thesis by (simp add: fs_remove_def)
qed

lemma fold_fs_remove:
  assumes "\<forall>p \<in> set ps. (\<forall>q \<in> fst ` set (files st). p \<notin> set (parent_dirs q))
                       \<and> (\<forall>d \<in> set (dirs st). d \<noteq> p \<and> p \<notin> set (parent_dirs d))"
  shows "fold fs_remove ps st = \<lparr>files = [(q, b) \<leftarrow> files st. q \<notin> set ps], dirs = dirs st\<rparr>"
  using assms
proof (induction ps arbitrary: st)
  case Nil
  then show ?case by simp
next
  case (Cons p ps)
  let ?st = "\<lparr>files = [(q, b) \<leftarrow> files st. q \<noteq> p], dirs = dirs st\<rparr>"
  have step: "fs_remove p st = ?st"
    using Cons.prems by (intro fs_remove_file) auto
  have "\<forall>p' \<in> set ps. (\<forall>q \<in> fst ` set (files ?st). p' \<notin> set (parent_dirs q))
                       \<and> (\<forall>d \<in> set (dirs ?st). d \<noteq> p' \<and> p' \<notin> set (parent_dirs d))"
    using Cons.prems by auto
  from Cons.IH [OF this] show ?case
    by (auto simp: step intro: filter_cong)
qed

lemma map_of_filter_keys:
  "map_of [(q, b) \<leftarrow> xs. P q] p = (if P p then map_of xs p else None)"
  by (induction xs) auto

lemma extract_entries_ok:
  assumes "manifest_name \<notin> fst ` set es"
    and "distinct (map fst es)"
    and "\<forall>p \<in> fst ` set es. \<forall>d \<in> set (parent_dirs p).
           d \<notin> fst ` set (files st) \<and> d \<notin> fst ` set es"
    and "\<forall>p \<in> fst ` set es. p \<notin> set (dirs st) \<and> \<not> (p \<noteq> [] \<and> last p = CHR ''/'')
           \<and> (\<forall>q \<in> fst ` set es. p \<notin> set (parent_dirs q))"
    and "distinct (map fst (files st))"
  shows "\<exists>st'. extract_entries es st = Inr st'
           \<and> map_of (files st') = map_of (files st) ++ map_of es
           \<and> distinct (map fst (files st'))"
  using assms
proof (induction es arbitrary: st)
  case Nil
  then show ?case by simp
next
  case (Cons e es)
  obtain p b where e: "e = (p, b)" by (cases e)
  from Cons.prems(1) have pm: "p \<noteq> manifest_name" and m: "manifest_name \<notin> fst ` set es"
    by (auto simp: e)
  from Cons.prems(2) have pes: "p \<notin> fst ` set es" and des: "distinct (map fst es)"
    by (auto simp: e)
  define st1 where "st1 = st\<lparr>dirs := dirs st @ [d \<leftarrow> parent_dirs p. d \<notin> set (dirs st)]\<rparr>"
  define st2 where "st2 = st1\<lparr>files := AList.update p b (files st1)\<rparr>"
  have ens: "fs_ensureDir_of p st = Inr st1"
    using Cons.prems(3) by (auto simp: fs_ensureDir_of_def st1_def e)
  have "p \<notin> set (dirs st1)" and "\<not> (p \<noteq> [] \<and> last p = CHR ''/'')"
    using Cons.prems(4) by (auto simp: st1_def e)
  then have wr: "fs_writeFile p b st1 = Inr st2"
    by (auto simp: fs_writeFile_def st2_def)
  have files2: "files st2 = AList.update p b (files st)"
    by (simp add: st2_def st1_def)
  have dirs2: "set (dirs st2) = set (dirs st) \<union> set (parent_dirs p)"
    by (auto simp: st2_def st1_def)
  have c3: "\<forall>q \<in> fst ` set es. \<forall>d \<in> set (parent_dirs q).
              d \<notin> fst ` set (files st2) \<and> d \<notin> fst ` set es"
    using Cons.prems(3) by (auto simp: files2 dom_update e)
  have c4: "\<forall>q \<in> fst ` set es. q \<notin> set (dirs st2) \<and> \<not> (q \<noteq> [] \<and> last q = CHR ''/'')
              \<and> (\<forall>r \<in> fst ` set es. q \<notin> set (parent_dirs r))"
    using Cons.prems(4) by (auto simp: dirs2 e)
  have c5: "distinct (map fst (files st2))"
    using Cons.prems(5) by (simp add: files2 distinct_update)
  from Cons.IH [OF m des c3 c4 c5] obtain st' where
    st': "extract_entries es st2 = Inr st'"
      "map_of (files st') = map_of (files st2) ++ map_of es"
      "distinct (map fst (files st'))"
    by blast
  have "extract_entries (e # es) st = Inr st'"
    using pm ens wr st'(1) by (simp add: e)
  moreover have "map_of (files st') = map_of (files st) ++ map_of (e # es)"
  proof
    fix x
    have pn: "map_of es p = None"
      using pes by (simp add: map_of_eq_None_iff)
    show "map_of (files st') x = (map_of (files st) ++ map_of (e # es)) x"
      using pn
      by (auto simp: st'(2) files2 update_conv' e map_add_def split: option.splits)
  qed
  ultimately show ?case using st'(3) by blast
qed

lemma hashes_mem:
  assumes "distinct (map fst a)"
  shows "(p, h) \<in> set (map (\<lambda>(p, bytes). (p, f bytes)) a) \<longleftrightarrow> map_option f (map_of a p) = Some h"
proof -
  have "(p, h) \<in> set (map (\<lambda>(p, bytes). (p, f bytes)) a) \<longleftrightarrow> (\<exists>b. (p, b) \<in> set a \<and> h = f b)"
    by force
  also have "\<dots> \<longleftrightarrow> (\<exists>b. map_of a p = Some b \<and> h = f b)"
    using assms by (simp add: map_of_eq_Some_iff)
  finally show ?thesis by auto
qed

lemma content_identicalI:
  assumes "distinct (map fst a)" and "distinct (map fst b)"
    and "\<And>p. map_option f (map_of a p) = map_option f (map_of b p)"
  shows "content_identical f a b"
proof -
  have "x \<in> set (map (\<lambda>(p, bytes). (p, f bytes)) a) \<longleftrightarrow> x \<in> set (map (\<lambda>(p, bytes). (p, f bytes)) b)" for x
    using hashes_mem [OF assms(1), of "fst x" "snd x" f] hashes_mem [OF assms(2), of "fst x" "snd x" f]
      assms(3) [of "fst x"]
    by simp
  then show ?thesis
    unfolding content_identical_def by blast
qed

lemma distinct_comprehension:
  "distinct (map fst xs) \<Longrightarrow> distinct [p. (p, h) \<leftarrow> xs, P p h]"
proof (induction xs)
  case Nil
  then show ?case by simp
next
  case (Cons x xs)
  have "set [p. (p, h) \<leftarrow> xs, P p h] \<subseteq> fst ` set xs" by force
  with Cons show ?case by (cases x) auto
qed

lemma distinct_added: "distinct (added (generateDiff sha256 oldDir newDir))"
  using distinct_comprehension [OF scanDirectory_distinct]
  by (simp add: generateDiff_def Let_def)

lemma distinct_modified: "distinct (modified (generateDiff sha256 oldDir newDir))"
proof -
  have "distinct [p. (p, h) \<leftarrow> scanDirectory sha256 newDir,
                    truthy (obj_get (scanDirectory sha256 oldDir) p)
                    \<and> obj_get (scanDirectory sha256 oldDir) p \<noteq> Str h]"
    by (rule distinct_comprehension [OF scanDirectory_distinct])
  moreover have "modified (generateDiff sha256 oldDir newDir) =
                   [p. (p, h) \<leftarrow> scanDirectory sha256 newDir,
                    truthy (obj_get (scanDirectory sha256 oldDir) p)
                    \<and> obj_get (scanDirectory sha256 oldDir) p \<noteq> Str h]"
    by (simp add: generateDiff_def Let_def) (rule arg_cong [where f = concat], rule map_cong, auto)
  ultimately show ?thesis by simp
qed

lemma map_of_keyed:
  "map_of (map (\<lambda>k. (k, f k)) ks) p = (if p \<in> set ks then Some (f p) else None)"
  by (induction ks) auto

lemma map_of_keys: "map_of xs p \<noteq> None \<longleftrightarrow> p \<in> fst ` set xs"
  by (simp add: map_of_eq_None_iff)

text \<open>
  Inputs outside the trees of the reconstruction theorem below. A file named like a
  property of \<open>Object.prototype\<close> that the new tree no longer has is not put into
  \<open>deleted\<close>, because the lookup in the new object finds the inherited property. A
  file added where the old tree has a directory, empty or not, cannot be written:
  removing the files of the directory leaves the directory. A file whose name holds a
  backslash is recorded under the name with a slash: the build fails when no file of
  that path exists, and when one exists the two files become one path of the diff and
  the output lacks a file of the new tree.
\<close>

lemma removed_prototype_name_not_deleted:
  "deleted (generateDiff tag_digest tree_constructor tree_only_a) = []"
  by code_simp

lemma added_over_directory_fails:
  "build_and_apply parse_fails tag_digest tree_dir_a tree_only_a = Inl EISDIR
   \<and> build_and_apply parse_fails tag_digest tree_empty_dir_a tree_only_a = Inl EISDIR"
  by code_simp

lemma backslash_name_fails:
  "added (generateDiff tag_digest tree_only_a tree_backslash) = [''a/b'']
   \<and> build_and_apply parse_fails tag_digest tree_only_a tree_backslash = Inl ENOENT"
  by code_simp

lemma backslash_names_merge:
  "map_sum id files (build_and_apply parse_fails tag_digest tree_only_a tree_backslash_pair)
     = Inr [(''a/b'', ''x'')]
   \<and> \<not> content_identical tag_digest [(''a/b'', ''x'')] (dir_files tree_backslash_pair)"
  by code_simp

text \<open>
  Claim C4, counterexample: the new tree is the old tree with one more file, named
  \<open>diff-manifest.json\<close>. The package holds two entries of that name. The reader of
  the manifest finds the file and fails on its bytes; and with the manifest the
  package was built with, the extraction passes over the file, so the output is the
  old tree, which is not content-identical to the new tree.
\<close>

theorem applyDiffPackage_manifest_name_counterexample:
  "build_and_apply parse_fails tag_digest tree_a tree_with_manifest_file = Inl InvalidJson
   \<and> map_sum id fst (createDiffPackage tag_digest tree_a tree_with_manifest_file)
       = Inr manifest_file_package
   \<and> apply_manifest \<lparr>m_added = [manifest_name], m_modified = [], m_deleted = []\<rparr>
       manifest_file_package (fs_copy tree_a) = Inr (fs_copy tree_a)
   \<and> \<not> content_identical tag_digest (files (fs_copy tree_a))
         (dir_files tree_with_manifest_file)"
  by code_simp

text \<open>
  Claim C4, as amended: for all file trees, empty or not, none of whose file paths is a
  property name of \<open>Object.prototype\<close> or contains a backslash, with a digest that is
  never the empty string: if the diff neither adds nor modifies the path
  \<open>diff-manifest.json\<close> and no added path is a directory of the old tree, then building
  the delta package from the old to the new tree succeeds, applying it onto the old
  tree succeeds, and the output is content-identical to the new tree: the same file
  paths with the same hashes.
\<close>

theorem applyDiffPackage_reconstructs:
  assumes wo: "wf_tree oldDir" and po: "plain_paths oldDir" and bo: "no_backslash oldDir"
    and wn: "wf_tree newDir" and pn: "plain_paths newDir" and bn: "no_backslash newDir"
    and h: "\<forall>bytes. sha256 bytes \<noteq> []"
    and mn: "manifest_name \<notin> set (added (generateDiff sha256 oldDir newDir)
                                   @ modified (generateDiff sha256 oldDir newDir))"
    and nd: "list_all (\<lambda>p. p \<notin> fst ` set (dir_subdirs oldDir))
               (added (generateDiff sha256 oldDir newDir))"
  shows "\<exists>out. build_and_apply parseJson sha256 oldDir newDir = Inr out
              \<and> content_identical sha256 (files out) (dir_files newDir)"
proof -
  define A where "A = added (generateDiff sha256 oldDir newDir)"
  define M where "M = modified (generateDiff sha256 oldDir newDir)"
  define D where "D = deleted (generateDiff sha256 oldDir newDir)"
  define fb where "fb p = (case map_of (dir_files newDir) p of Some b \<Rightarrow> b | None \<Rightarrow> [])" for p
  define es where "es = map (\<lambda>p. (p, fb p)) (A @ M)"
  define st1 where
    "st1 = \<lparr>files = [(q, b) \<leftarrow> dir_files oldDir. q \<notin> set D], dirs = dirs (fs_copy oldDir)\<rparr>"
  have setA: "set A = {p. map_of (dir_files newDir) p \<noteq> None \<and> map_of (dir_files oldDir) p = None}"
    unfolding A_def by (rule set_added [OF wo po bo wn pn bn h])
  have setM: "set M = {p. \<exists>b b'. map_of (dir_files oldDir) p = Some b
                            \<and> map_of (dir_files newDir) p = Some b' \<and> sha256 b \<noteq> sha256 b'}"
    unfolding M_def by (rule set_modified [OF wo po bo wn pn bn h])
  have setD: "set D = {p. map_of (dir_files oldDir) p \<noteq> None \<and> map_of (dir_files newDir) p = None}"
    unfolding D_def by (rule set_deleted [OF wo po bo wn pn bn h])
  have A_new: "p \<in> fst ` set (dir_files newDir)" if "p \<in> set A \<union> set M" for p
    using that by (auto simp: setA setM map_of_keys [symmetric])
  have M_old: "p \<in> fst ` set (dir_files oldDir)" if "p \<in> set M" for p
    using that by (auto simp: setM map_of_keys [symmetric])
  have D_old: "p \<in> fst ` set (dir_files oldDir)" if "p \<in> set D" for p
    using that by (auto simp: setD map_of_keys [symmetric])
  have kept_new: "q \<in> fst ` set (dir_files newDir)"
    if "q \<in> fst ` set (dir_files oldDir)" "q \<notin> set D" for q
    using that by (auto simp: setD map_of_keys [symmetric])

  have entry: "archive_entry newDir p = (p, fb p)" if "p \<in> set (A @ M)" for p
  proof -
    from that have "p \<in> fst ` set (dir_files newDir)"
      using A_new [of p] by simp
    then have "map_of (dir_files newDir) p \<noteq> None"
      by (rule map_of_keys [THEN iffD2])
    then show ?thesis by (auto simp: archive_entry_def fb_def)
  qed
  then have "map (archive_entry newDir) (A @ M) = es"
    unfolding es_def by (intro map_cong) auto
  with createDiffPackage_ok [OF bn, of sha256 oldDir] obtain st where
    build: "createDiffPackage sha256 oldDir newDir
              = Inr (\<lparr>pkg_manifest = Some \<lparr>m_added = A, m_modified = M, m_deleted = D\<rparr>,
                      pkg_files = es\<rparr>, st)"
    by (auto simp: A_def M_def D_def)
  define pkg where
    "pkg = \<lparr>pkg_manifest = Some \<lparr>m_added = A, m_modified = M, m_deleted = D\<rparr>, pkg_files = es\<rparr>"
  have pkg_files: "pkg_files pkg = es"
    and pkg_manifest: "pkg_manifest pkg = Some \<lparr>m_added = A, m_modified = M, m_deleted = D\<rparr>"
    by (simp_all add: pkg_def)
  have keys_es: "fst ` set es = set A \<union> set M"
    by (force simp: es_def)

  have "manifest_name \<notin> fst ` set (rev es)"
    using mn by (simp add: keys_es A_def M_def)
  then have "map_of (rev (pkg_files pkg)) manifest_name = None"
    by (simp add: pkg_files map_of_eq_None_iff del: set_rev)
  then have rm: "read_manifest parseJson pkg = Inr \<lparr>m_added = A, m_modified = M, m_deleted = D\<rparr>"
    by (simp add: read_manifest_def pkg_manifest)

  have "\<forall>p \<in> set D. (\<forall>q \<in> fst ` set (files (fs_copy oldDir)). p \<notin> set (parent_dirs q))
          \<and> (\<forall>d \<in> set (dirs (fs_copy oldDir)). d \<noteq> p \<and> p \<notin> set (parent_dirs d))"
  proof (intro ballI conjI)
    fix p q assume "p \<in> set D" "q \<in> fst ` set (files (fs_copy oldDir))"
    then show "p \<notin> set (parent_dirs q)"
      using wf_tree_file_not_parent [OF wo D_old, of p q] by (simp add: fs_copy_def)
  next
    fix p d assume p: "p \<in> set D" and "d \<in> set (dirs (fs_copy oldDir))"
    then have d: "d \<in> fst ` set (dir_subdirs oldDir)"
      by (simp add: fs_copy_def)
    show "d \<noteq> p" using wf_tree_file_not_dir [OF wo D_old [OF p]] d by auto
    show "p \<notin> set (parent_dirs d)"
      using wf_tree_file_not_parent [OF wo D_old [OF p], of d] d by simp
  qed
  from fold_fs_remove [OF this]
  have rem: "fold fs_remove D (fs_copy oldDir) = st1"
    by (simp add: st1_def fs_copy_def)

  have files1: "fst ` set (files st1) \<subseteq> fst ` set (dir_files newDir)"
    using kept_new by (force simp: st1_def)
  have c1: "manifest_name \<notin> fst ` set es"
    using mn by (simp add: keys_es A_def M_def)
  have c2: "distinct (map fst es)"
  proof -
    have "set A \<inter> set M = {}" by (auto simp: setA setM)
    then have "distinct (A @ M)"
      using distinct_added [of sha256 oldDir newDir] distinct_modified [of sha256 oldDir newDir]
      by (simp add: A_def M_def)
    moreover have "map fst es = A @ M" by (simp add: es_def comp_def)
    ultimately show ?thesis by simp
  qed
  have c3: "\<forall>p \<in> fst ` set es. \<forall>d \<in> set (parent_dirs p).
              d \<notin> fst ` set (files st1) \<and> d \<notin> fst ` set es"
  proof (intro ballI conjI)
    fix p d assume p: "p \<in> fst ` set es" and d: "d \<in> set (parent_dirs p)"
    from p have pn': "p \<in> fst ` set (dir_files newDir)" using A_new by (simp add: keys_es)
    have notfile: "d \<notin> fst ` set (dir_files newDir)"
      using wf_tree_file_not_parent [OF wn, of d p] pn' d by auto
    show "d \<notin> fst ` set (files st1)"
      using notfile files1 by auto
    show "d \<notin> fst ` set es"
      using notfile A_new by (auto simp: keys_es)
  qed
  have c4: "\<forall>p \<in> fst ` set es. p \<notin> set (dirs st1) \<and> \<not> (p \<noteq> [] \<and> last p = CHR ''/'')
              \<and> (\<forall>q \<in> fst ` set es. p \<notin> set (parent_dirs q))"
  proof (intro ballI conjI)
    fix p assume p: "p \<in> fst ` set es"
    show "p \<notin> set (dirs st1)"
    proof
      assume "p \<in> set (dirs st1)"
      then have q: "p \<in> fst ` set (dir_subdirs oldDir)"
        by (simp add: st1_def fs_copy_def)
      from p consider "p \<in> set A" | "p \<in> set M" by (auto simp: keys_es)
      then show False
      proof cases
        case 1
        with nd q show False by (auto simp: A_def list_all_iff)
      next
        case 2
        with wf_tree_file_not_dir [OF wo M_old] q show False by simp
      qed
    qed
    show "\<not> (p \<noteq> [] \<and> last p = CHR ''/'')"
      using wf_tree_file_name [OF wn A_new, of p] p by (simp add: keys_es)
  next
    fix p q assume "p \<in> fst ` set es" "q \<in> fst ` set es"
    then show "p \<notin> set (parent_dirs q)"
      using wf_tree_file_not_parent [OF wn A_new, of p q] A_new [of q] by (simp add: keys_es)
  qed
  have c5: "distinct (map fst (files st1))"
    using wf_tree_distinct [OF wo] by (simp add: st1_def distinct_map_filter)
  from extract_entries_ok [OF c1 c2 c3 c4 c5] obtain out where
    out: "extract_entries es st1 = Inr out"
      "map_of (files out) = map_of (files st1) ++ map_of es"
      "distinct (map fst (files out))"
    by blast
  have "applyDiffPackage parseJson oldDir pkg = Inr out"
    by (simp add: applyDiffPackage_def rm apply_manifest_def pkg_files rem out(1))
  then have ap: "build_and_apply parseJson sha256 oldDir newDir = Inr out"
    by (simp add: build_and_apply_def build pkg_def)

  have pointwise: "map_option sha256 (map_of (files out) p)
                     = map_option sha256 (map_of (dir_files newDir) p)" for p
  proof -
    have "map_of es p = (if p \<in> set (A @ M) then Some (fb p) else None)"
      unfolding es_def by (rule map_of_keyed)
    then have es_p: "map_of es p = (if p \<in> set A \<union> set M then Some (fb p) else None)"
      by simp
    have st1_p: "map_of (files st1) p = (if p \<notin> set D then map_of (dir_files oldDir) p else None)"
      by (simp add: st1_def map_of_filter_keys)
    show ?thesis
    proof (cases "p \<in> set A \<union> set M")
      case True
      then have "map_of (dir_files newDir) p \<noteq> None" by (auto simp: setA setM)
      then have "map_of (dir_files newDir) p = Some (fb p)"
        by (auto simp: fb_def)
      with True show ?thesis by (simp add: out(2) es_p map_add_def)
    next
      case False
      then have "map_of (files out) p = (if p \<notin> set D then map_of (dir_files oldDir) p else None)"
        by (simp add: out(2) es_p st1_p map_add_def)
      with False show ?thesis
        by (cases "map_of (dir_files oldDir) p"; cases "map_of (dir_files newDir) p")
          (auto simp: setA setM setD)
    qed
  qed
  have "content_identical sha256 (files out) (dir_files newDir)"
    by (rule content_identicalI [OF out(3) wf_tree_distinct [OF wn] pointwise])
  with ap show ?thesis by blast
qed

theorem applyDiffPackage_reconstructs_witness:
  "\<exists>out. build_and_apply parse_fails tag_digest tree_a tree_b = Inr out
        \<and> content_identical tag_digest (files out) (dir_files tree_b)"
proof -
  have "wf_tree tree_a" and "plain_paths tree_a" and "no_backslash tree_a"
    and "wf_tree tree_b" and "plain_paths tree_b" and "no_backslash tree_b"
    by code_simp+
  moreover have "\<forall>bytes. tag_digest bytes \<noteq> []"
    by (simp add: tag_digest_def)
  moreover have "manifest_name \<notin> set (added (generateDiff tag_digest tree_a tree_b)
                                       @ modified (generateDiff tag_digest tree_a tree_b))"
    by code_simp
  moreover have "list_all (\<lambda>p. p \<notin> fst ` set (dir_subdirs tree_a))
                   (added (generateDiff tag_digest tree_a tree_b))"
    by code_simp
  ultimately show ?thesis
    by (rule applyDiffPackage_reconstructs)
qed

text \<open>The output of the example: the files of the new tree.\<close>

lemma reconstructs_example:
  "map_sum id files (build_and_apply parse_fails tag_digest tree_a tree_b)
     = Inr [(''main.lynx.bundle'', ''bundle two''), (''res/logo.png'', ''logo''),
            (''res/new/info.txt'', ''fresh'')]"
  by code_simp

text \<open>
  Claim C8, counterexample: the delta package of a tree of 19 bytes against itself has
  no added and no modified path and reports 100 as the saved percentage.
\<close>

theorem savedPercent_identical_counterexample:
  "added (generateDiff tag_digest tree_a tree_a) = []
   \<and> modified (generateDiff tag_digest tree_a tree_a) = []
   \<and> map_sum id (fullSize \<circ> snd) (createDiffPackage tag_digest tree_a tree_a) = Inr 19
   \<and> map_sum id (savedPercent \<circ> snd) (createDiffPackage tag_digest tree_a tree_a) = Inr 100"
  by code_simp

text \<open>
  Claim C8, as amended: when the old and the new tree are the same tree, the diff has
  no added and no modified path, and the build, which fails only on a tree with a
  backslash in a file name, reports the delta size 0 and the saved percentage 100 when
  the tree has a positive total size; it is 0 only when the total size is 0.
\<close>

theorem savedPercent_identical_trees:
  assumes "\<forall>bytes. sha256 bytes \<noteq> []"
  shows "added (generateDiff sha256 dir dir) = []
       \<and> modified (generateDiff sha256 dir dir) = []
       \<and> (case createDiffPackage sha256 dir dir of
            Inl e \<Rightarrow> \<not> no_backslash dir
          | Inr (pkg, st) \<Rightarrow>
              diffSize st = 0
              \<and> savedPercent st = (if 0 < fullSize st then 100 else 0))"
proof -
  note same = generateDiff_same [OF assms, of dir]
  show ?thesis
  proof (cases "createDiffPackage sha256 dir dir")
    case (Inl e)
    have "\<not> no_backslash dir"
    proof
      assume "no_backslash dir"
      from createDiffPackage_ok [OF this, of sha256 dir] Inl show False by auto
    qed
    with same Inl show ?thesis by simp
  next
    case (Inr r)
    obtain pkg st where r: "r = (pkg, st)" by (cases r)
    from stats_no_change [OF same] Inr r
    have "diffSize st = 0" and "savedPercent st = (if 0 < fullSize st then 100 else 0)"
      by simp_all
    with same Inr r show ?thesis by simp
  qed
qed

theorem savedPercent_identical_trees_witness:
  "added (generateDiff tag_digest tree_a tree_a) = []
   \<and> modified (generateDiff tag_digest tree_a tree_a) = []
   \<and> (case createDiffPackage tag_digest tree_a tree_a of
        Inl e \<Rightarrow> \<not> no_backslash tree_a
      | Inr (pkg, st) \<Rightarrow>
          diffSize st = 0
          \<and> savedPercent st = (if 0 < fullSize st then 100 else 0))"
proof -
  have "\<forall>bytes. tag_digest bytes \<noteq> []"
    by (simp add: tag_digest_def)
  then show ?thesis
    by (rule savedPercent_identical_trees)
qed

end
